theory Spec2Isabelle
  imports Main
begin

section \<open>Data model of code-health.ts\<close>

text \<open>
  A line number is a JavaScript number. The program never computes with it: it tests it for
  truthiness and prints it in a template literal. A number is therefore given here by the
  text that \<open>Number::toString\<close> prints for it: \<open>''42''\<close>, \<open>''-3''\<close>, \<open>''1.5''\<close>, \<open>''1e+21''\<close>,
  \<open>''Infinity''\<close>, \<open>''NaN''\<close>. Such a text is \<open>NaN\<close> or a non-empty text of digits, signs, the
  point, the exponent mark and the letters of \<open>Infinity\<close>; two numbers with the same text are
  the same number, except 0 and -0, which both print as \<open>''0''\<close> and are both falsy.
\<close>

definition isNumberText :: "string \<Rightarrow> bool" where
  "isNumberText t =
     (t = ''NaN'' \<or> (t \<noteq> [] \<and> list_all (\<lambda>c. c \<in> set ''0123456789+-.eInfity'') t))"

typedef JsNumber = "{t. isNumberText t}"
  morphisms numberText mkNumber
  by (rule exI [of _ "''0''"]) (simp add: isNumberText_def)

text \<open>\<open>ToBoolean\<close> of a number: false for 0, -0 and \<open>NaN\<close>.\<close>

definition toBoolean :: "JsNumber \<Rightarrow> bool" where
  "toBoolean n = (numberText n \<noteq> ''0'' \<and> numberText n \<noteq> ''NaN'')"

text \<open>
  The \<open>type\<close> field of an \<open>Issue\<close> is one of three string literals; the optional fields
  \<open>file\<close>, \<open>line\<close>, \<open>rule\<close> and \<open>fix\<close> are options (\<open>file\<close> and \<open>fix\<close> are Isabelle
  keywords, so the fields are \<open>issueFile\<close> and \<open>issueFix\<close>). Strings are lists of characters.
\<close>

datatype IssueType = Error | Warning | Info

record Issue =
  type :: IssueType
  issueFile :: "string option"
  line :: "JsNumber option"
  message :: string
  rule :: "string option"
  issueFix :: "string option"

datatype Status = Pass | Warn | Fail | Skip

record CheckResult =
  name :: string
  status :: Status
  duration :: nat
  issues :: "Issue list"
  summary :: string
  rawOutput :: "string option"

record Totals =
  errors :: nat
  warnings :: nat
  info :: nat

datatype Grade = A | B | C | D | F

record HealthReport =
  timestamp :: string
  totalDuration :: nat
  checks :: "CheckResult list"
  totals :: Totals
  grade :: Grade

section \<open>Aggregation and grading (main, calculateGrade)\<close>

text \<open>
  The body of the inner loop of \<open>main\<close>: one issue increments exactly one counter, the
  final \<open>else\<close> taking every type that is neither error nor warning.
\<close>

definition countIssue :: "Totals \<Rightarrow> Issue \<Rightarrow> Totals" where
  "countIssue t i =
     (if type i = Error then t\<lparr>errors := errors t + 1\<rparr>
      else if type i = Warning then t\<lparr>warnings := warnings t + 1\<rparr>
      else t\<lparr>info := info t + 1\<rparr>)"

definition countCheck :: "Totals \<Rightarrow> CheckResult \<Rightarrow> Totals" where
  "countCheck t c = foldl countIssue t (issues c)"

definition computeTotals :: "CheckResult list \<Rightarrow> Totals" where
  "computeTotals cs = foldl countCheck \<lparr>errors = 0, warnings = 0, info = 0\<rparr> cs"

text \<open>\<open>calculateGrade\<close>: four early returns in the order of the source.\<close>

definition calculateGrade :: "HealthReport \<Rightarrow> Grade" where
  "calculateGrade report =
     (let e = errors (totals report); w = warnings (totals report) in
      if e = 0 \<and> w = 0 then A
      else if e = 0 \<and> w \<le> 5 then B
      else if e \<le> 2 \<and> w \<le> 15 then C
      else if e \<le> 5 then D
      else F)"

text \<open>
  The grading rule in the words of the specification, as a table of (condition, grade)
  rows read top to bottom, the first row whose condition holds giving the grade.
\<close>

fun firstMatch :: "(bool \<times> Grade) list \<Rightarrow> Grade \<Rightarrow> Grade" where
  "firstMatch [] dflt = dflt"
| "firstMatch ((c, g) # rows) dflt = (if c then g else firstMatch rows dflt)"

definition gradeTable :: "nat \<Rightarrow> nat \<Rightarrow> Grade" where
  "gradeTable e w =
     firstMatch [(e = 0 \<and> w = 0, A), (e = 0 \<and> w \<le> 5, B),
                 (e \<le> 2 \<and> w \<le> 15, C), (e \<le> 5, D)] F"

text \<open>The number of issues of one type over all checks of a report.\<close>

definition allIssues :: "CheckResult list \<Rightarrow> Issue list" where
  "allIssues cs = concat (map issues cs)"

definition countType :: "IssueType \<Rightarrow> Issue list \<Rightarrow> nat" where
  "countType ty is = length (filter (\<lambda>i. type i = ty) is)"

section \<open>Compact issue encoding (compactIssue)\<close>

text \<open>
  The messages and summaries of the checks print counts: array lengths and sums of a few of
  them, far below the size from which JavaScript leaves plain decimal digits. \<open>showNat\<close> and
  \<open>showInt\<close> print such a count.
\<close>

definition digitChar :: "nat \<Rightarrow> char" where
  "digitChar d = ''0123456789'' ! (d mod 10)"

fun showNat :: "nat \<Rightarrow> string" where
  "showNat n = (if n < 10 then [digitChar n] else showNat (n div 10) @ [digitChar (n mod 10)])"

declare showNat.simps [simp del]

definition showInt :: "int \<Rightarrow> string" where
  "showInt k = (if k < 0 then CHR ''-'' # showNat (nat (- k)) else showNat (nat k))"

text \<open>
  \<open>compactIssue\<close> with its three local constants \<open>t\<close>, \<open>loc\<close> and \<open>r\<close>. The tests \<open>issue.file ?\<close>
  and \<open>issue.line ?\<close> are JavaScript truthiness: an empty string and a falsy number (0, -0,
  \<open>NaN\<close>) count as absent, and \<open>issue.rule || ""\<close> gives the empty string for both an absent
  and an empty rule. A truthy line is printed by the template literal.
\<close>

definition compact_t :: "Issue \<Rightarrow> string" where
  "compact_t issue = (if type issue = Error then ''E'' else if type issue = Warning then ''W'' else ''I'')"

definition compact_loc :: "Issue \<Rightarrow> string" where
  "compact_loc issue =
     (case issueFile issue of
        None \<Rightarrow> []
      | Some f \<Rightarrow>
          if f = [] then []
          else f @ (case line issue of
                      None \<Rightarrow> []
                    | Some l \<Rightarrow> if toBoolean l then CHR '':'' # numberText l else []))"

definition compact_r :: "Issue \<Rightarrow> string" where
  "compact_r issue = (case rule issue of None \<Rightarrow> [] | Some r \<Rightarrow> r)"

definition compactIssue :: "Issue \<Rightarrow> string" where
  "compactIssue issue =
     compact_t issue @ ''|'' @ compact_loc issue @ ''|'' @ message issue @ ''|'' @ compact_r issue"

text \<open>
  A file that reads as a file followed by a line: after its last colon come only characters
  of a printed number, at least one.
\<close>

definition looksNumbered :: "string \<Rightarrow> bool" where
  "looksNumbered f =
     (CHR '':'' \<in> set f \<and>
      takeWhile (\<lambda>c. c \<noteq> CHR '':'') (rev f) \<noteq> [] \<and>
      list_all (\<lambda>c. c \<in> set ''0123456789+-.eInfity'')
        (takeWhile (\<lambda>c. c \<noteq> CHR '':'') (rev f)))"

text \<open>
  Issues whose fields stay clear of the separators of the compact form and of the values
  that the truthiness tests drop: a file, when present, is not empty, has no \<open>|\<close> and, when
  there is no line, does not read as a file followed by a line; a line, when present, comes
  with a file and is truthy; a rule, when present, is not empty and has no \<open>|\<close>. The message
  is free.
\<close>

definition wfIssue :: "Issue \<Rightarrow> bool" where
  "wfIssue i =
     ((case issueFile i of
         None \<Rightarrow> line i = None
       | Some f \<Rightarrow>
           f \<noteq> [] \<and> CHR ''|'' \<notin> set f \<and>
           (case line i of None \<Rightarrow> \<not> looksNumbered f | Some k \<Rightarrow> toBoolean k)) \<and>
      (case rule i of None \<Rightarrow> True | Some r \<Rightarrow> r \<noteq> [] \<and> CHR ''|'' \<notin> set r))"

text \<open>The suffix that \<open>compactIssue\<close> puts after a non-empty file.\<close>

definition lineSuffix :: "JsNumber option \<Rightarrow> string" where
  "lineSuffix l =
     (case l of None \<Rightarrow> [] | Some k \<Rightarrow> if toBoolean k then CHR '':'' # numberText k else [])"

section \<open>Regular expressions of the source analyzer\<close>

text \<open>
  The analyzer works on raw text with regular expressions. Each expression of the source is
  a matcher here: a function from the text at a position to the text that remains after the
  match, or \<open>None\<close>. The expressions of the source have no choice point that a failed
  continuation could revisit with success (a greedy run is always followed by a character
  outside the run's class), so a matcher follows the greedy path only. Characters are code
  units up to 255.
\<close>

definition inRange :: "char \<Rightarrow> char \<Rightarrow> char \<Rightarrow> bool" where
  "inRange lo hi c = ((of_char lo :: nat) \<le> of_char c \<and> (of_char c :: nat) \<le> of_char hi)"

definition isUpper :: "char \<Rightarrow> bool" where
  "isUpper c = inRange CHR ''A'' CHR ''Z'' c"

definition isAlpha :: "char \<Rightarrow> bool" where
  "isAlpha c = (inRange CHR ''a'' CHR ''z'' c \<or> inRange CHR ''A'' CHR ''Z'' c)"

text \<open>The class \<open>\w\<close>.\<close>

definition isWord :: "char \<Rightarrow> bool" where
  "isWord c = (isAlpha c \<or> inRange CHR ''0'' CHR ''9'' c \<or> c = CHR ''_'')"

text \<open>The class \<open>\s\<close>: tab, line feed, vertical tab, form feed, carriage return, space, no-break space.\<close>

definition isSpace :: "char \<Rightarrow> bool" where
  "isSpace c = (c \<in> set [CHR 0x09, CHR 0x0A, CHR 0x0B, CHR 0x0C, CHR 0x0D, CHR 0x20, CHR 0xA0])"

text \<open>A literal, \<open>\s+\<close>, one character of a class, and an alternation of literals.\<close>

fun stripPrefix :: "string \<Rightarrow> string \<Rightarrow> string option" where
  "stripPrefix [] s = Some s"
| "stripPrefix (p # ps) [] = None"
| "stripPrefix (p # ps) (c # cs) = (if p = c then stripPrefix ps cs else None)"

definition spaces1 :: "string \<Rightarrow> string option" where
  "spaces1 s = (case s of [] \<Rightarrow> None | c # cs \<Rightarrow> if isSpace c then Some (dropWhile isSpace cs) else None)"

definition charIf :: "(char \<Rightarrow> bool) \<Rightarrow> string \<Rightarrow> string option" where
  "charIf p s = (case s of [] \<Rightarrow> None | c # cs \<Rightarrow> if p c then Some cs else None)"

definition oneOf :: "string \<Rightarrow> string \<Rightarrow> string option" where
  "oneOf cls s = charIf (\<lambda>c. c \<in> set cls) s"

fun altLit :: "string list \<Rightarrow> string \<Rightarrow> string option" where
  "altLit [] s = None"
| "altLit (p # ps) s = (case stripPrefix p s of Some r \<Rightarrow> Some r | None \<Rightarrow> altLit ps s)"

fun hasSub :: "string \<Rightarrow> string \<Rightarrow> bool" where
  "hasSub p [] = (stripPrefix p [] \<noteq> None)"
| "hasSub p (c # cs) = (stripPrefix p (c # cs) \<noteq> None \<or> hasSub p cs)"

text \<open>
  \<open>re.test(s)\<close> and \<open>s.match(re)\<close> without the \<open>g\<close> flag take the leftmost position where the
  expression matches.
\<close>

fun searchRe :: "(string \<Rightarrow> 'a option) \<Rightarrow> string \<Rightarrow> 'a option" where
  "searchRe m [] = m []"
| "searchRe m (c # cs) = (case m (c # cs) of Some r \<Rightarrow> Some r | None \<Rightarrow> searchRe m cs)"

definition testRe :: "(string \<Rightarrow> 'a option) \<Rightarrow> string \<Rightarrow> bool" where
  "testRe m s = (searchRe m s \<noteq> None)"

text \<open>
  \<open>(s.match(re) || []).length\<close> with the \<open>g\<close> flag counts the matches from left to right, each
  search starting where the previous match ended. The matcher also gets the character before
  the position, for \<open>\b\<close>. The second argument of \<open>countFrom\<close> is that character, the third the
  number of characters still covered by the previous match. No expression of the source
  matches the empty string.
\<close>

fun countFrom :: "(char option \<Rightarrow> string \<Rightarrow> string option) \<Rightarrow> char option \<Rightarrow> nat \<Rightarrow> string \<Rightarrow> nat" where
  "countFrom m prev skip [] = 0"
| "countFrom m prev (Suc k) (c # cs) = countFrom m (Some c) k cs"
| "countFrom m prev 0 (c # cs) =
     (case m prev (c # cs) of
        None \<Rightarrow> countFrom m (Some c) 0 cs
      | Some rest \<Rightarrow> Suc (countFrom m (Some c) (length cs - length rest) cs))"

definition countMatches :: "(string \<Rightarrow> string option) \<Rightarrow> string \<Rightarrow> nat" where
  "countMatches m s = countFrom (\<lambda>prev. m) None 0 s"

text \<open>\<open>name\s*\(\<close> and \<open>name\s*[<(]\<close>.\<close>

definition re_call :: "string \<Rightarrow> string \<Rightarrow> string option" where
  "re_call nm s = Option.bind (stripPrefix nm s) (\<lambda>r. oneOf ''('' (dropWhile isSpace r))"

definition re_callOrGeneric :: "string \<Rightarrow> string \<Rightarrow> string option" where
  "re_callOrGeneric nm s = Option.bind (stripPrefix nm s) (\<lambda>r. oneOf ''<('' (dropWhile isSpace r))"

text \<open>\<open>\buse[A-Z][a-zA-Z]*\s*\(\<close>: the boundary holds when no word character precedes.\<close>

definition re_anyHook :: "char option \<Rightarrow> string \<Rightarrow> string option" where
  "re_anyHook prev s =
     (if (case prev of None \<Rightarrow> False | Some p \<Rightarrow> isWord p) then None
      else Option.bind (stripPrefix ''use'' s) (\<lambda>r.
           Option.bind (charIf isUpper r) (\<lambda>r.
           oneOf ''('' (dropWhile isSpace (dropWhile isAlpha r)))))"

text \<open>\<open>useState|useEffect|useMemo|useCallback|useRef|useQuery|useMutation\<close>.\<close>

definition re_namedHook :: "string \<Rightarrow> string option" where
  "re_namedHook s =
     altLit [''useState'', ''useEffect'', ''useMemo'', ''useCallback'', ''useRef'',
             ''useQuery'', ''useMutation''] s"

text \<open>
  \<open>class\s+\w*Error\w*\s+extends\s+React\.Component\<close>: the run of word characters after
  \<open>class\<close> contains \<open>Error\<close>.
\<close>

definition re_errorBoundary :: "string \<Rightarrow> string option" where
  "re_errorBoundary s =
     Option.bind (stripPrefix ''class'' s) (\<lambda>r.
     Option.bind (spaces1 r) (\<lambda>r.
       if hasSub ''Error'' (takeWhile isWord r) then
         Option.bind (spaces1 (dropWhile isWord r)) (\<lambda>r.
         Option.bind (stripPrefix ''extends'' r) (\<lambda>r.
         Option.bind (spaces1 r) (\<lambda>r.
         stripPrefix ''React.Component'' r)))
       else None))"

text \<open>\<open>export\s+(const|function)\s+[A-Z][a-zA-Z]*\s*[=:]\<close>.\<close>

definition re_exportedComponent :: "string \<Rightarrow> string option" where
  "re_exportedComponent s =
     Option.bind (stripPrefix ''export'' s) (\<lambda>r.
     Option.bind (spaces1 r) (\<lambda>r.
     Option.bind (altLit [''const'', ''function''] r) (\<lambda>r.
     Option.bind (spaces1 r) (\<lambda>r.
     Option.bind (charIf isUpper r) (\<lambda>r.
     oneOf ''=:'' (dropWhile isSpace (dropWhile isAlpha r)))))))"

text \<open>\<open><(?:div|Fragment|>)[^>]*>\s*<(?:div|Fragment|>)\<close>.\<close>

definition re_jsxOpen :: "string \<Rightarrow> string option" where
  "re_jsxOpen s = Option.bind (stripPrefix ''<'' s) (altLit [''div'', ''Fragment'', ''>''])"

definition re_nestedJsx :: "string \<Rightarrow> string option" where
  "re_nestedJsx s =
     Option.bind (re_jsxOpen s) (\<lambda>r.
     Option.bind (stripPrefix ''>'' (dropWhile (\<lambda>c. c \<noteq> CHR ''>'') r)) (\<lambda>r.
     re_jsxOpen (dropWhile isSpace r)))"

text \<open>\<open><\w+[^>]*>\<close>.\<close>

definition re_jsxTag :: "string \<Rightarrow> string option" where
  "re_jsxTag s =
     Option.bind (stripPrefix ''<'' s) (\<lambda>r.
     Option.bind (charIf isWord r) (\<lambda>r.
     stripPrefix ''>'' (dropWhile (\<lambda>c. c \<noteq> CHR ''>'') (dropWhile isWord r))))"

text \<open>
  The function-introduction expression of \<open>detectLongFunctions\<close>,
  \<open>(?:function\s+(\w+)|const\s+(\w+)\s*=\s*(?:async\s*)?\(|const\s+(\w+)\s*=\s*React\.memo)\<close>.
  A matcher returns the captured name. The three alternatives are tried in this order at
  each position.
\<close>

definition re_functionDecl :: "string \<Rightarrow> string option" where
  "re_functionDecl s =
     Option.bind (stripPrefix ''function'' s) (\<lambda>r.
     Option.bind (spaces1 r) (\<lambda>r.
       if takeWhile isWord r = [] then None else Some (takeWhile isWord r)))"

text \<open>\<open>const\s+(\w+)\s*=\s*\<close>, the common head of the second and third alternative.\<close>

definition re_constHead :: "string \<Rightarrow> (string \<times> string) option" where
  "re_constHead s =
     Option.bind (stripPrefix ''const'' s) (\<lambda>r.
     Option.bind (spaces1 r) (\<lambda>r.
       if takeWhile isWord r = [] then None
       else Option.bind (stripPrefix ''='' (dropWhile isSpace (dropWhile isWord r))) (\<lambda>r2.
            Some (takeWhile isWord r, dropWhile isSpace r2))))"

definition re_constArrow :: "string \<Rightarrow> string option" where
  "re_constArrow s =
     Option.bind (re_constHead s) (\<lambda>(w, r).
       case stripPrefix ''async'' r of
         Some a \<Rightarrow> Option.bind (oneOf ''('' (dropWhile isSpace a)) (\<lambda>_. Some w)
       | None \<Rightarrow> Option.bind (oneOf ''('' r) (\<lambda>_. Some w))"

definition re_constMemo :: "string \<Rightarrow> string option" where
  "re_constMemo s =
     Option.bind (re_constHead s) (\<lambda>(w, r).
       Option.bind (stripPrefix ''React.memo'' r) (\<lambda>_. Some w))"

definition re_funcStart :: "string \<Rightarrow> string option" where
  "re_funcStart s =
     (case re_functionDecl s of
        Some w \<Rightarrow> Some w
      | None \<Rightarrow> (case re_constArrow s of Some w \<Rightarrow> Some w | None \<Rightarrow> re_constMemo s))"

section \<open>Heuristic source analyzer (analyzeFile, detectLongFunctions, detectMixedConcerns)\<close>

text \<open>
  \<open>content.split("\n")\<close>: the empty text gives one empty line. The result is never empty,
  so the first branch of the \<open>case\<close> is not taken.
\<close>

fun split_nl :: "string \<Rightarrow> string list" where
  "split_nl [] = [[]]"
| "split_nl (c # cs) =
     (if c = CHR 0x0A then [] # split_nl cs
      else (case split_nl cs of [] \<Rightarrow> [[c]] | l # ls \<Rightarrow> (c # l) # ls))"

text \<open>
  The local variables of \<open>detectLongFunctions\<close>. The loop body is \<open>lfStep\<close>, at line index \<open>i\<close>;
  \<open>braceDepth\<close> can go below zero.
\<close>

record LfState =
  currentFunction :: string
  functionStartLine :: nat
  braceDepth :: int
  inFunction :: bool
  longFunctions :: "string list"

definition funcMatch :: "string \<Rightarrow> string option" where
  "funcMatch ln = searchRe re_funcStart ln"

definition braceDelta :: "string \<Rightarrow> int" where
  "braceDelta ln = int (count_list ln CHR ''{'') - int (count_list ln CHR ''}'')"

definition lfStart :: "nat \<Rightarrow> string \<Rightarrow> LfState \<Rightarrow> LfState" where
  "lfStart i ln s =
     (case funcMatch ln of
        None \<Rightarrow> s
      | Some nm \<Rightarrow>
          if \<not> inFunction s
          then s\<lparr>currentFunction := (if nm = [] then ''anonymous'' else nm),
                 functionStartLine := i, inFunction := True, braceDepth := 0\<rparr>
          else s)"

definition lfEnd :: "nat \<Rightarrow> LfState \<Rightarrow> LfState" where
  "lfEnd i s =
     (if inFunction s \<and> braceDepth s \<le> 0 \<and> i > functionStartLine s then
        (let functionLength = i - functionStartLine s in
         (if functionLength > 80
          then s\<lparr>longFunctions := longFunctions s @
                   [currentFunction s @ '' ('' @ showNat functionLength @ '' lines)'']\<rparr>
          else s)\<lparr>inFunction := False\<rparr>)
      else s)"

definition lfStep :: "nat \<Rightarrow> string \<Rightarrow> LfState \<Rightarrow> LfState" where
  "lfStep i ln s =
     (let s1 = lfStart i ln s;
          s2 = s1\<lparr>braceDepth := braceDepth s1 + braceDelta ln\<rparr>
      in lfEnd i s2)"

fun lfScan :: "nat \<Rightarrow> string list \<Rightarrow> LfState \<Rightarrow> LfState" where
  "lfScan i [] s = s"
| "lfScan i (ln # lns) s = lfScan (Suc i) lns (lfStep i ln s)"

definition lfInit :: LfState where
  "lfInit = \<lparr>currentFunction = [], functionStartLine = 0, braceDepth = 0,
             inFunction = False, longFunctions = []\<rparr>"

definition detectLongFunctions :: "string \<Rightarrow> string list" where
  "detectLongFunctions content = longFunctions (lfScan 0 (split_nl content) lfInit)"

text \<open>\<open>detectMixedConcerns\<close>. In JavaScript \<open>&&\<close> binds tighter than \<open>||\<close>, as \<open>\<and>\<close> and \<open>\<or>\<close> do here.\<close>

definition hasJsx :: "string \<Rightarrow> bool" where
  "hasJsx content = testRe re_jsxTag content"

definition hasHeavyLogic :: "string \<Rightarrow> bool" where
  "hasHeavyLogic content =
     (countMatches (re_call ''.map'') content > 3 \<and>
      countMatches (re_call ''.filter'') content > 2 \<or>
      countMatches (re_call ''if'') content > 10)"

definition detectMixedConcerns :: "string \<Rightarrow> bool" where
  "detectMixedConcerns content = (hasJsx content \<and> hasHeavyLogic content)"

text \<open>
  \<open>analyzeFile\<close>. Reading the file is a lookup in a map from paths to contents; a failed read
  is \<open>None\<close> and gives \<open>null\<close>. The count \<open>custom\<close> is a difference and can be negative.
\<close>

record Hooks =
  useState :: nat
  useEffect :: nat
  useMemo :: nat
  useCallback :: nat
  useRef :: nat
  useQuery :: nat
  useMutation :: nat
  custom :: int

record Patterns =
  inlineErrorBoundary :: bool
  multipleComponents :: bool
  deepJsxNesting :: bool
  longFunctionList :: "string list"
  mixedConcerns :: bool

record FileAnalysis =
  path :: string
  lines :: nat
  hooks :: Hooks
  patterns :: Patterns

definition countHooks :: "string \<Rightarrow> Hooks" where
  "countHooks content =
     \<lparr>useState = countMatches (re_callOrGeneric ''useState'') content,
      useEffect = countMatches (re_call ''useEffect'') content,
      useMemo = countMatches (re_call ''useMemo'') content,
      useCallback = countMatches (re_call ''useCallback'') content,
      useRef = countMatches (re_callOrGeneric ''useRef'') content,
      useQuery = countMatches (re_call ''useQuery'') content,
      useMutation = countMatches (re_call ''useMutation'') content,
      custom = int (countFrom re_anyHook None 0 content) - int (countMatches re_namedHook content)\<rparr>"

definition detectPatterns :: "string \<Rightarrow> Patterns" where
  "detectPatterns content =
     \<lparr>inlineErrorBoundary = testRe re_errorBoundary content,
      multipleComponents = (countMatches re_exportedComponent content > 2),
      deepJsxNesting = (countMatches re_nestedJsx content > 10),
      longFunctionList = detectLongFunctions content,
      mixedConcerns = detectMixedConcerns content\<rparr>"

definition analyzeFile :: "(string \<rightharpoonup> string) \<Rightarrow> string \<Rightarrow> FileAnalysis option" where
  "analyzeFile fs filePath =
     (case fs filePath of
        None \<Rightarrow> None
      | Some content \<Rightarrow>
          Some \<lparr>path = filePath, lines = length (split_nl content),
                hooks = countHooks content, patterns = detectPatterns content\<rparr>)"

section \<open>Checks\<close>

text \<open>
  The adapters run a tool and parse its output into issues; that part (subprocess, JSON and
  text scanning) is outside this embedding. \<open>ToolRun\<close> holds what an adapter has when it
  reaches its \<open>return\<close>: the issues it has pushed, the elapsed time and the raw text it keeps.
  What each adapter does from there (counting, status, summary) is modelled as written. The
  linters, knip, madge and the architecture check push issues of the types that their tools
  report; the TypeScript check, further down, pushes errors only.
\<close>

record ToolRun =
  pushed :: "Issue list"
  elapsed :: nat
  raw :: string

definition checkEslint :: "ToolRun \<Rightarrow> CheckResult" where
  "checkEslint run =
     (let errors = countType Error (pushed run); warnings = countType Warning (pushed run) in
      \<lparr>name = ''Import & Complexity (ESLint)'',
       status = (if errors > 0 then Fail else if warnings > 0 then Warn else Pass),
       duration = elapsed run, issues = pushed run,
       summary = showNat errors @ '' errors, '' @ showNat warnings @ '' warnings'',
       rawOutput = Some (raw run)\<rparr>)"

definition checkOxlint :: "ToolRun \<Rightarrow> CheckResult" where
  "checkOxlint run =
     (let errors = countType Error (pushed run); warnings = countType Warning (pushed run) in
      \<lparr>name = ''Linting (oxlint)'',
       status = (if errors > 0 then Fail else if warnings > 0 then Warn else Pass),
       duration = elapsed run, issues = pushed run,
       summary = showNat errors @ '' errors, '' @ showNat warnings @ '' warnings'',
       rawOutput = Some (raw run)\<rparr>)"

definition checkKnip :: "ToolRun \<Rightarrow> CheckResult" where
  "checkKnip run =
     (let errors = countType Error (pushed run); warnings = countType Warning (pushed run);
          infos = countType Info (pushed run) in
      \<lparr>name = ''Dead Code (knip)'',
       status = (if errors > 0 then Fail else if warnings > 0 then Warn else Pass),
       duration = elapsed run, issues = pushed run,
       summary = showNat errors @ '' errors, '' @ showNat warnings @ '' unused deps, '' @
                 showNat infos @ '' unused exports'',
       rawOutput = Some (raw run)\<rparr>)"

text \<open>The three checks that \<open>--quick\<close> skips take the flag \<open>isQuick\<close>.\<close>

definition checkJscpd :: "bool \<Rightarrow> ToolRun \<Rightarrow> CheckResult" where
  "checkJscpd isQuick run =
     (if isQuick then
        \<lparr>name = ''Duplicate Code (jscpd)'', status = Skip, duration = 0, issues = [],
         summary = ''Skipped (--quick mode)'', rawOutput = None\<rparr>
      else
        (let warnings = countType Warning (pushed run) in
         \<lparr>name = ''Duplicate Code (jscpd)'',
          status = (if warnings > 10 then Warn else Pass),
          duration = elapsed run, issues = pushed run,
          summary = showNat warnings @ '' duplicate blocks found'',
          rawOutput = Some (raw run)\<rparr>))"

definition checkMadge :: "bool \<Rightarrow> ToolRun \<Rightarrow> CheckResult" where
  "checkMadge isQuick run =
     (if isQuick then
        \<lparr>name = ''Dependency Graph (madge)'', status = Skip, duration = 0, issues = [],
         summary = ''Skipped (--quick mode)'', rawOutput = None\<rparr>
      else
        (let errors = countType Error (pushed run); warnings = countType Warning (pushed run) in
         \<lparr>name = ''Dependency Graph (madge)'',
          status = (if errors > 0 then Fail else if warnings > 0 then Warn else Pass),
          duration = elapsed run, issues = pushed run,
          summary = showNat errors @ '' circular deps, '' @ showNat warnings @ '' orphan files'',
          rawOutput = Some (raw run)\<rparr>))"

text \<open>
  \<open>checkTypeScript\<close> builds its issues itself from the lines of the output, so it is modelled
  from the output text. The diagnostic expression
  \<open>(.+?)\((\d+),\d+\):\s*error\s*(TS\d+):\s*(.+)\<close> is the parameter \<open>tscMatch\<close>: for a line it
  gives the groups 1 to 4 of \<open>line.match\<close>, the second after \<open>parseInt\<close>, or \<open>None\<close>. Every issue
  is pushed with type error, and \<open>errors\<close> is the number of all issues.
\<close>

definition js_trim :: "string \<Rightarrow> string" where
  "js_trim s = rev (dropWhile isSpace (rev (dropWhile isSpace s)))"

definition tscErrorLines :: "string \<Rightarrow> string list" where
  "tscErrorLines output =
     filter (\<lambda>ln. hasSub ''error TS'' ln \<or> hasSub '': error'' ln) (split_nl output)"

definition tscLineIssues ::
  "(string \<Rightarrow> (string \<times> JsNumber \<times> string \<times> string) option) \<Rightarrow> string \<Rightarrow> Issue list" where
  "tscLineIssues tscMatch ln =
     (case tscMatch ln of
        Some (g1, g2, g3, g4) \<Rightarrow>
          [\<lparr>type = Error, issueFile = Some g1, line = Some g2, message = g4,
            rule = Some g3, issueFix = None\<rparr>]
      | None \<Rightarrow>
          if hasSub ''error'' ln
          then [\<lparr>type = Error, issueFile = None, line = None, message = js_trim ln,
                 rule = None, issueFix = None\<rparr>]
          else [])"

definition checkTypeScript ::
  "(string \<Rightarrow> (string \<times> JsNumber \<times> string \<times> string) option) \<Rightarrow> string \<Rightarrow> nat \<Rightarrow> CheckResult" where
  "checkTypeScript tscMatch output t =
     (let found = concat (map (tscLineIssues tscMatch) (tscErrorLines output));
          errors = length found in
      \<lparr>name = ''TypeScript Types'',
       status = (if errors > 0 then Fail else Pass),
       duration = t, issues = found,
       summary = showNat errors @ '' type errors'',
       rawOutput = Some output\<rparr>)"

text \<open>
  \<open>checkArchitecture\<close>: \<open>configExists\<close> says whether \<open>stat\<close> of the dependency-cruiser
  configuration succeeds. When it throws, the check returns from the \<open>catch\<close> block.
\<close>

definition missingConfigIssue :: Issue where
  "missingConfigIssue =
     \<lparr>type = Info, issueFile = None, line = None,
      message = ''No .dependency-cruiser.cjs config found - skipping architecture check'',
      rule = None,
      issueFix = Some ''Create .dependency-cruiser.cjs to define module boundaries''\<rparr>"

definition checkArchitecture :: "bool \<Rightarrow> bool \<Rightarrow> ToolRun \<Rightarrow> CheckResult" where
  "checkArchitecture isQuick configExists run =
     (if isQuick then
        \<lparr>name = ''Architecture Boundaries'', status = Skip, duration = 0, issues = [],
         summary = ''Skipped (--quick mode)'', rawOutput = None\<rparr>
      else if \<not> configExists then
        \<lparr>name = ''Architecture Boundaries'', status = Skip, duration = elapsed run,
         issues = [missingConfigIssue], summary = ''Config not found'', rawOutput = None\<rparr>
      else
        (let errors = countType Error (pushed run); warnings = countType Warning (pushed run) in
         \<lparr>name = ''Architecture Boundaries'',
          status = (if errors > 0 then Fail else if warnings > 0 then Warn else Pass),
          duration = elapsed run, issues = pushed run,
          summary = showNat errors @ '' boundary violations, '' @ showNat warnings @ '' warnings'',
          rawOutput = Some (raw run)\<rparr>))"

subsection \<open>Complexity check\<close>

definition FILE_LINES_WARNING :: nat where "FILE_LINES_WARNING = 300"
definition FILE_LINES_ERROR :: nat where "FILE_LINES_ERROR = 500"
definition COMPONENT_HOOKS_WARNING :: int where "COMPONENT_HOOKS_WARNING = 6"
definition COMPONENT_HOOKS_ERROR :: int where "COMPONENT_HOOKS_ERROR = 10"
definition COMPONENT_USEEFFECT_WARNING :: nat where "COMPONENT_USEEFFECT_WARNING = 4"
definition COMPONENT_USEMEMO_WARNING :: nat where "COMPONENT_USEMEMO_WARNING = 6"
definition FOLDER_DEPTH_WARNING :: nat where "FOLDER_DEPTH_WARNING = 5"
definition FOLDER_DEPTH_ERROR :: nat where "FOLDER_DEPTH_ERROR = 7"
definition FILES_PER_FOLDER_WARNING :: nat where "FILES_PER_FOLDER_WARNING = 15"
definition FILES_PER_FOLDER_ERROR :: nat where "FILES_PER_FOLDER_ERROR = 25"

text \<open>\<open>s.replace(pat, rep)\<close> with a string pattern replaces the first occurrence.\<close>

fun replaceFirst :: "string \<Rightarrow> string \<Rightarrow> string \<Rightarrow> string" where
  "replaceFirst pat rep [] = (if pat = [] then rep else [])"
| "replaceFirst pat rep (c # cs) =
     (case stripPrefix pat (c # cs) of
        Some r \<Rightarrow> rep @ r
      | None \<Rightarrow> c # replaceFirst pat rep cs)"

definition endsWith :: "string \<Rightarrow> string \<Rightarrow> bool" where
  "endsWith s suf = (length suf \<le> length s \<and> drop (length s - length suf) s = suf)"

definition relativePath :: "string \<Rightarrow> string \<Rightarrow> string" where
  "relativePath cwd f =
     replaceFirst (cwd @ [CHR 0x5C]) [] (replaceFirst (cwd @ ''/'') [] f)"

text \<open>
  The variables that the loop of \<open>checkComplexity\<close> updates: the issue list and two
  counters. Each block of the loop body is a function on them, in the order of the source.
\<close>

record ComplexityAcc =
  accIssues :: "Issue list"
  largeFiles :: nat
  complexComponents :: nat

definition emptyAcc :: ComplexityAcc where
  "emptyAcc = \<lparr>accIssues = [], largeFiles = 0, complexComponents = 0\<rparr>"

definition push :: "Issue \<Rightarrow> ComplexityAcc \<Rightarrow> ComplexityAcc" where
  "push i acc = acc\<lparr>accIssues := accIssues acc @ [i]\<rparr>"

definition fileSizeBlock :: "string \<Rightarrow> FileAnalysis \<Rightarrow> ComplexityAcc \<Rightarrow> ComplexityAcc" where
  "fileSizeBlock rel a acc =
     (if lines a > FILE_LINES_ERROR then
        push \<lparr>type = Error, issueFile = Some rel, line = None,
              message = ''File has '' @ showNat (lines a) @ '' lines (max '' @
                        showNat FILE_LINES_ERROR @ '')'',
              rule = Some ''complexity/file-size'',
              issueFix = Some ''Split into smaller, focused modules. Extract hooks, utilities, and sub-components.''\<rparr>
          (acc\<lparr>largeFiles := largeFiles acc + 1\<rparr>)
      else if lines a > FILE_LINES_WARNING then
        push \<lparr>type = Warning, issueFile = Some rel, line = None,
              message = ''File has '' @ showNat (lines a) @ '' lines (consider splitting at '' @
                        showNat FILE_LINES_WARNING @ ''+)'',
              rule = Some ''complexity/file-size'',
              issueFix = Some ''Consider extracting reusable logic into hooks or utilities.''\<rparr>
          acc
      else acc)"

definition totalHooks :: "Hooks \<Rightarrow> int" where
  "totalHooks h =
     int (useState h) + int (useEffect h) + int (useMemo h) + int (useCallback h) +
     int (useRef h) + custom h"

definition hookCountBlock :: "string \<Rightarrow> FileAnalysis \<Rightarrow> ComplexityAcc \<Rightarrow> ComplexityAcc" where
  "hookCountBlock rel a acc =
     (let h = hooks a in
      if totalHooks h \<ge> COMPONENT_HOOKS_ERROR then
        push \<lparr>type = Error, issueFile = Some rel, line = None,
              message = ''Component uses '' @ showInt (totalHooks h) @ '' hooks (useState: '' @
                        showNat (useState h) @ '', useEffect: '' @ showNat (useEffect h) @
                        '', useMemo: '' @ showNat (useMemo h) @ '', useCallback: '' @
                        showNat (useCallback h) @ '', custom: '' @ showInt (custom h) @ '')'',
              rule = Some ''complexity/too-many-hooks'',
              issueFix = Some ''Extract related hooks into a custom hook (e.g., useComponentNameState). Split component into smaller pieces.''\<rparr>
          (acc\<lparr>complexComponents := complexComponents acc + 1\<rparr>)
      else if totalHooks h \<ge> COMPONENT_HOOKS_WARNING then
        push \<lparr>type = Warning, issueFile = Some rel, line = None,
              message = ''Component uses '' @ showInt (totalHooks h) @ '' hooks - getting complex'',
              rule = Some ''complexity/too-many-hooks'',
              issueFix = Some ''Consider extracting related state and effects into a custom hook.''\<rparr>
          acc
      else acc)"

definition effectBlock :: "string \<Rightarrow> FileAnalysis \<Rightarrow> ComplexityAcc \<Rightarrow> ComplexityAcc" where
  "effectBlock rel a acc =
     (if useEffect (hooks a) \<ge> COMPONENT_USEEFFECT_WARNING then
        push \<lparr>type = Warning, issueFile = Some rel, line = None,
              message = ''Component has '' @ showNat (useEffect (hooks a)) @
                        '' useEffect calls - side-effect sprawl'',
              rule = Some ''complexity/effect-sprawl'',
              issueFix = Some ''Consolidate related effects or extract to custom hooks. Consider if effects can be replaced with event handlers.''\<rparr>
          acc
      else acc)"

definition memoBlock :: "string \<Rightarrow> FileAnalysis \<Rightarrow> ComplexityAcc \<Rightarrow> ComplexityAcc" where
  "memoBlock rel a acc =
     (if useMemo (hooks a) + useCallback (hooks a) \<ge> COMPONENT_USEMEMO_WARNING then
        push \<lparr>type = Info, issueFile = Some rel, line = None,
              message = ''Component has '' @ showNat (useMemo (hooks a)) @ '' useMemo and '' @
                        showNat (useCallback (hooks a)) @ '' useCallback - possible over-optimization'',
              rule = Some ''complexity/over-memoization'',
              issueFix = Some ''Review if all memos are necessary. React 19 compiler handles most memoization automatically.''\<rparr>
          acc
      else acc)"

definition errorBoundaryBlock :: "string \<Rightarrow> FileAnalysis \<Rightarrow> ComplexityAcc \<Rightarrow> ComplexityAcc" where
  "errorBoundaryBlock rel a acc =
     (if inlineErrorBoundary (patterns a) then
        push \<lparr>type = Warning, issueFile = Some rel, line = None,
              message = ''Inline error boundary class in component file'',
              rule = Some ''pattern/inline-error-boundary'',
              issueFix = Some ''Move error boundary to shared/components/ErrorBoundary.tsx and import it.''\<rparr>
          acc
      else acc)"

definition multipleComponentsBlock :: "string \<Rightarrow> FileAnalysis \<Rightarrow> ComplexityAcc \<Rightarrow> ComplexityAcc" where
  "multipleComponentsBlock rel a acc =
     (if multipleComponents (patterns a) then
        push \<lparr>type = Info, issueFile = Some rel, line = None,
              message = ''Multiple exported components in one file'',
              rule = Some ''pattern/multiple-components'',
              issueFix = Some ''Consider splitting each component into its own file for better organization.''\<rparr>
          acc
      else acc)"

definition longFunctionIssue :: "string \<Rightarrow> string \<Rightarrow> Issue" where
  "longFunctionIssue rel func =
     \<lparr>type = Warning, issueFile = Some rel, line = None,
      message = ''Long function: '' @ func,
      rule = Some ''complexity/long-function'',
      issueFix = Some ''Break down into smaller functions. Extract logic into utilities or hooks.''\<rparr>"

text \<open>The inner loop over \<open>longFunctions.slice(0, 3)\<close>.\<close>

definition longFunctionBlock :: "string \<Rightarrow> FileAnalysis \<Rightarrow> ComplexityAcc \<Rightarrow> ComplexityAcc" where
  "longFunctionBlock rel a acc =
     (if length (longFunctionList (patterns a)) > 0 then
        foldl (\<lambda>acc func. push (longFunctionIssue rel func) acc) acc
          (take 3 (longFunctionList (patterns a)))
      else acc)"

definition mixedConcernsBlock :: "string \<Rightarrow> FileAnalysis \<Rightarrow> ComplexityAcc \<Rightarrow> ComplexityAcc" where
  "mixedConcernsBlock rel a acc =
     (if mixedConcerns (patterns a) then
        push \<lparr>type = Info, issueFile = Some rel, line = None,
              message = ''File appears to mix business logic with UI rendering'',
              rule = Some ''pattern/mixed-concerns'',
              issueFix = Some ''Extract business logic to hooks/utilities. Keep components focused on rendering.''\<rparr>
          acc
      else acc)"

text \<open>The loop body for one file whose analysis is \<open>a\<close>.\<close>

definition complexityFile :: "string \<Rightarrow> string \<Rightarrow> FileAnalysis \<Rightarrow> ComplexityAcc \<Rightarrow> ComplexityAcc" where
  "complexityFile cwd f a acc =
     (let rel = relativePath cwd f;
          acc1 = fileSizeBlock rel a acc;
          acc2 = (if endsWith f ''.tsx''
                  then memoBlock rel a (effectBlock rel a (hookCountBlock rel a acc1))
                  else acc1);
          acc3 = errorBoundaryBlock rel a acc2;
          acc4 = multipleComponentsBlock rel a acc3;
          acc5 = longFunctionBlock rel a acc4
      in mixedConcernsBlock rel a acc5)"

definition complexityLoop :: "string \<Rightarrow> (string \<rightharpoonup> string) \<Rightarrow> ComplexityAcc \<Rightarrow> string \<Rightarrow> ComplexityAcc" where
  "complexityLoop cwd fs acc f =
     (case analyzeFile fs f of None \<Rightarrow> acc | Some a \<Rightarrow> complexityFile cwd f a acc)"

text \<open>
  \<open>checkComplexity\<close>, given the working directory, the file contents, the files that
  \<open>findFiles\<close> returned and the elapsed time.
\<close>

definition checkComplexity :: "string \<Rightarrow> (string \<rightharpoonup> string) \<Rightarrow> string list \<Rightarrow> nat \<Rightarrow> CheckResult" where
  "checkComplexity cwd fs files t =
     (let acc = foldl (complexityLoop cwd fs) emptyAcc files;
          errors = countType Error (accIssues acc);
          warnings = countType Warning (accIssues acc) in
      \<lparr>name = ''Complexity Analysis'',
       status = (if errors > 0 then Fail else if warnings > 5 then Warn else Pass),
       duration = t, issues = accIssues acc,
       summary = showNat (largeFiles acc) @ '' oversized files, '' @
                 showNat (complexComponents acc) @ '' complex components, '' @
                 showNat warnings @ '' warnings'',
       rawOutput = None\<rparr>)"

text \<open>The issues that the loop body adds for one file.\<close>

definition emitted :: "string \<Rightarrow> string \<Rightarrow> FileAnalysis \<Rightarrow> Issue list" where
  "emitted cwd f a =
     accIssues (complexityFile cwd f a emptyAcc)"

definition isLongFunctionIssue :: "Issue \<Rightarrow> bool" where
  "isLongFunctionIssue i = (rule i = Some ''complexity/long-function'')"

subsection \<open>Structure check\<close>

text \<open>
  \<open>checkStructure\<close> reads the list that \<open>analyzeFolderStructure\<close> returns and, for each feature
  directory that has a \<open>components\<close> folder, the number of \<open>.tsx\<close> files in it. Both are inputs
  here (the field \<open>path\<close> of a folder is \<open>folderPath\<close>).
\<close>

record FolderAnalysis =
  folderPath :: string
  depth :: nat
  fileCount :: nat
  hasIndex :: bool
  mixedContent :: bool

record StructureAcc =
  strIssues :: "Issue list"
  deepFolders :: nat
  crowdedFolders :: nat

definition pushStr :: "Issue \<Rightarrow> StructureAcc \<Rightarrow> StructureAcc" where
  "pushStr i acc = acc\<lparr>strIssues := strIssues acc @ [i]\<rparr>"

definition depthBlock :: "FolderAnalysis \<Rightarrow> StructureAcc \<Rightarrow> StructureAcc" where
  "depthBlock folder acc =
     (if depth folder \<ge> FOLDER_DEPTH_ERROR then
        pushStr \<lparr>type = Error, issueFile = Some (''apps/web/src/'' @ folderPath folder), line = None,
                 message = ''Folder depth '' @ showNat (depth folder) @ '' exceeds maximum ('' @
                           showNat FOLDER_DEPTH_ERROR @ '')'',
                 rule = Some ''structure/deep-nesting'',
                 issueFix = Some ''Flatten the structure. Consider co-locating related files or using a flatter hierarchy.''\<rparr>
          (acc\<lparr>deepFolders := deepFolders acc + 1\<rparr>)
      else if depth folder \<ge> FOLDER_DEPTH_WARNING then
        pushStr \<lparr>type = Warning, issueFile = Some (''apps/web/src/'' @ folderPath folder), line = None,
                 message = ''Folder depth '' @ showNat (depth folder) @ '' is getting deep'',
                 rule = Some ''structure/deep-nesting'',
                 issueFix = Some ''Consider flattening nested folders.''\<rparr>
          acc
      else acc)"

definition crowdBlock :: "FolderAnalysis \<Rightarrow> StructureAcc \<Rightarrow> StructureAcc" where
  "crowdBlock folder acc =
     (if fileCount folder \<ge> FILES_PER_FOLDER_ERROR then
        pushStr \<lparr>type = Error, issueFile = Some (''apps/web/src/'' @ folderPath folder), line = None,
                 message = ''Folder has '' @ showNat (fileCount folder) @ '' files (max '' @
                           showNat FILES_PER_FOLDER_ERROR @ '')'',
                 rule = Some ''structure/crowded-folder'',
                 issueFix = Some ''Split into subfolders by domain or feature (e.g., /messages, /input, /sidebar).''\<rparr>
          (acc\<lparr>crowdedFolders := crowdedFolders acc + 1\<rparr>)
      else if fileCount folder \<ge> FILES_PER_FOLDER_WARNING then
        pushStr \<lparr>type = Warning, issueFile = Some (''apps/web/src/'' @ folderPath folder), line = None,
                 message = ''Folder has '' @ showNat (fileCount folder) @ '' files - consider organizing'',
                 rule = Some ''structure/crowded-folder'',
                 issueFix = Some ''Consider grouping related files into subfolders.''\<rparr>
          acc
      else acc)"

definition mixedContentBlock :: "FolderAnalysis \<Rightarrow> StructureAcc \<Rightarrow> StructureAcc" where
  "mixedContentBlock folder acc =
     (if mixedContent folder then
        pushStr \<lparr>type = Info, issueFile = Some (''apps/web/src/'' @ folderPath folder), line = None,
                 message = ''Folder mixes components, hooks, and utilities without subfolders'',
                 rule = Some ''structure/mixed-content'',
                 issueFix = Some ''Organize into /components, /hooks, /utils subfolders or co-locate with features.''\<rparr>
          acc
      else acc)"

definition structureFolder :: "StructureAcc \<Rightarrow> FolderAnalysis \<Rightarrow> StructureAcc" where
  "structureFolder acc folder = mixedContentBlock folder (crowdBlock folder (depthBlock folder acc))"

definition structureFeature :: "StructureAcc \<Rightarrow> string \<times> nat \<Rightarrow> StructureAcc" where
  "structureFeature acc ft =
     (case ft of (featureName, tsxCount) \<Rightarrow>
        if tsxCount > 20 then
          pushStr \<lparr>type = Warning,
                   issueFile = Some (''apps/web/src/features/'' @ featureName @ ''/components''),
                   line = None,
                   message = ''Feature has '' @ showNat tsxCount @ '' components in one folder'',
                   rule = Some ''structure/feature-organization'',
                   issueFix = Some (''Group related components: e.g., /messages, /input, /sidebar within features/'' @
                                    featureName @ ''/components'')\<rparr>
            acc
        else acc)"

definition checkStructure :: "FolderAnalysis list \<Rightarrow> (string \<times> nat) list \<Rightarrow> nat \<Rightarrow> CheckResult" where
  "checkStructure folders features t =
     (let acc = foldl structureFeature
                  (foldl structureFolder \<lparr>strIssues = [], deepFolders = 0, crowdedFolders = 0\<rparr> folders)
                  features;
          errors = countType Error (strIssues acc);
          warnings = countType Warning (strIssues acc) in
      \<lparr>name = ''Structure Analysis'',
       status = (if errors > 0 then Fail else if warnings > 3 then Warn else Pass),
       duration = t, issues = strIssues acc,
       summary = showNat (deepFolders acc) @ '' deep folders, '' @
                 showNat (crowdedFolders acc) @ '' crowded folders, '' @
                 showNat warnings @ '' warnings'',
       rawOutput = None\<rparr>)"

subsection \<open>The status rule of the specification\<close>

text \<open>
  Fail if an Error issue is present, else Warn if a Warning issue is present, else Pass.
\<close>

definition uniformStatus :: "Issue list \<Rightarrow> Status" where
  "uniformStatus is =
     (if list_ex (\<lambda>i. type i = Error) is then Fail
      else if list_ex (\<lambda>i. type i = Warning) is then Warn
      else Pass)"

subsection \<open>The mixed-concerns rule of the specification\<close>

text \<open>
  The rule in the words of the specification, without the matchers. A tag-like construct
  starts a text that is \<open><\<close>, one or more word characters, any characters other than \<open>>\<close>, and
  \<open>>\<close>. A call of \<open>name\<close> starts a text that is the name, any white space, and \<open>(\<close>. The
  number of calls in a text is the number of its positions where one starts.
\<close>

definition tagAt :: "string \<Rightarrow> bool" where
  "tagAt s =
     (\<exists>w b d. s = CHR ''<'' # w @ b @ CHR ''>'' # d \<and> w \<noteq> [] \<and> list_all isWord w \<and>
              CHR ''>'' \<notin> set b)"

definition containsTag :: "string \<Rightarrow> bool" where
  "containsTag content = (\<exists>pre s. content = pre @ s \<and> tagAt s)"

definition callAt :: "string \<Rightarrow> string \<Rightarrow> bool" where
  "callAt nm s = (\<exists>ws rest. s = nm @ ws @ CHR ''('' # rest \<and> list_all isSpace ws)"

definition callCount :: "string \<Rightarrow> string \<Rightarrow> nat" where
  "callCount nm content = card {i. i < length content \<and> callAt nm (drop i content)}"

text \<open>
  The flag as the specification groups it, and the other grouping that the specification
  sets it against.
\<close>

definition mixedConcernsSpec :: "string \<Rightarrow> bool" where
  "mixedConcernsSpec content =
     (containsTag content \<and>
      ((callCount ''.map'' content > 3 \<and> callCount ''.filter'' content > 2) \<or>
       callCount ''if'' content > 10))"

definition mixedConcernsRegrouped :: "string \<Rightarrow> bool" where
  "mixedConcernsRegrouped content =
     (containsTag content \<and>
      (callCount ''.map'' content > 3 \<and>
       (callCount ''.filter'' content > 2 \<or> callCount ''if'' content > 10)))"

text \<open>The number of positions of a text where a property holds of the rest of the text.\<close>

fun occurrences :: "(string \<Rightarrow> bool) \<Rightarrow> string \<Rightarrow> nat" where
  "occurrences P [] = 0"
| "occurrences P (c # cs) = (if P (c # cs) then 1 else 0) + occurrences P cs"

subsection \<open>Source texts made of top-level functions\<close>

text \<open>
  A source text as the function-length property speaks of it: a sequence of segments, each
  a top-level function (its lines, from the line of the declaration to its last line) or a
  line outside any function. \<open>join_nl\<close> puts the lines together with line feeds, as
  \<open>lines.join("\n")\<close> does.
\<close>

datatype Segment = Other string | Func "string list"

fun segLines :: "Segment \<Rightarrow> string list" where
  "segLines (Other l) = [l]"
| "segLines (Func ls) = ls"

fun join_nl :: "string list \<Rightarrow> string" where
  "join_nl [] = []"
| "join_nl [l] = l"
| "join_nl (l # l' # ls) = l @ CHR 0x0A # join_nl (l' # ls)"

definition sourceText :: "Segment list \<Rightarrow> string" where
  "sourceText segs = join_nl (concat (map segLines segs))"

text \<open>The brace depth after some lines, from depth \<open>d\<close>, and whether it is positive after each.\<close>

fun depthAfter :: "int \<Rightarrow> string list \<Rightarrow> int" where
  "depthAfter d [] = d"
| "depthAfter d (l # ls) = depthAfter (d + braceDelta l) ls"

fun staysOpen :: "int \<Rightarrow> string list \<Rightarrow> bool" where
  "staysOpen d [] = True"
| "staysOpen d (l # ls) = (d + braceDelta l > 0 \<and> staysOpen (d + braceDelta l) ls)"

definition noLineFeed :: "string \<Rightarrow> bool" where
  "noLineFeed l = (CHR 0x0A \<notin> set l)"

text \<open>
  A function with balanced braces: its first line matches the function-introduction
  expression, it has a brace, and the depth is back at 0 after its last line.
\<close>

definition balancedFunction :: "string list \<Rightarrow> bool" where
  "balancedFunction ls =
     (case ls of
        [] \<Rightarrow> False
      | decl # rest \<Rightarrow>
          funcMatch decl \<noteq> None \<and> list_ex (\<lambda>l. CHR ''{'' \<in> set l) ls \<and>
          depthAfter 0 ls = 0 \<and> list_all noLineFeed ls)"

text \<open>
  A function that the detector can follow: after the line of the declaration come further
  lines, the depth counted from the declaration is positive after each of them but the
  last, and is at most 0 after the last.
\<close>

definition trackedFunction :: "string list \<Rightarrow> bool" where
  "trackedFunction ls =
     (case ls of
        [] \<Rightarrow> False
      | decl # rest \<Rightarrow>
          rest \<noteq> [] \<and> funcMatch decl \<noteq> None \<and>
          staysOpen (braceDelta decl) (butlast rest) \<and>
          depthAfter (braceDelta decl) rest \<le> 0 \<and> list_all noLineFeed ls)"

fun trackedSegment :: "Segment \<Rightarrow> bool" where
  "trackedSegment (Other l) = (funcMatch l = None \<and> noLineFeed l)"
| "trackedSegment (Func ls) = trackedFunction ls"

text \<open>
  What the property asks the detector to report: the functions whose span, the index of the
  last line minus the index of the first, exceeds 80, each with its name and span.
\<close>

definition reportedName :: "string \<Rightarrow> string" where
  "reportedName decl =
     (case funcMatch decl of
        None \<Rightarrow> ''anonymous''
      | Some nm \<Rightarrow> if nm = [] then ''anonymous'' else nm)"

fun expectedReport :: "Segment \<Rightarrow> string list" where
  "expectedReport (Other l) = []"
| "expectedReport (Func ls) =
     (if length ls - 1 > 80
      then [reportedName (hd ls) @ '' ('' @ showNat (length ls - 1) @ '' lines)'']
      else [])"

section \<open>Theorems\<close>

lemma foldl_countIssue:
  "foldl countIssue t is =
     \<lparr>errors = errors t + countType Error is,
      warnings = warnings t + countType Warning is,
      info = info t + countType Info is\<rparr>"
proof (induction "is" arbitrary: t)
  case Nil
  show ?case by (simp add: countType_def)
next
  case (Cons i "is")
  have "foldl countIssue t (i # is) = foldl countIssue (countIssue t i) is"
    by simp
  also have "\<dots> = \<lparr>errors = errors (countIssue t i) + countType Error is,
      warnings = warnings (countIssue t i) + countType Warning is,
      info = info (countIssue t i) + countType Info is\<rparr>"
    by (rule Cons.IH)
  also have "\<dots> = \<lparr>errors = errors t + countType Error (i # is),
      warnings = warnings t + countType Warning (i # is),
      info = info t + countType Info (i # is)\<rparr>"
    by (cases "type i") (simp_all add: countIssue_def countType_def)
  finally show ?case .
qed

lemma foldl_countCheck:
  "foldl countCheck t cs =
     \<lparr>errors = errors t + countType Error (allIssues cs),
      warnings = warnings t + countType Warning (allIssues cs),
      info = info t + countType Info (allIssues cs)\<rparr>"
proof (induction cs arbitrary: t)
  case Nil
  show ?case by (simp add: countType_def allIssues_def)
next
  case (Cons c cs)
  have "foldl countCheck t (c # cs) = foldl countCheck (countCheck t c) cs"
    by simp
  also have "\<dots> = \<lparr>errors = errors (countCheck t c) + countType Error (allIssues cs),
      warnings = warnings (countCheck t c) + countType Warning (allIssues cs),
      info = info (countCheck t c) + countType Info (allIssues cs)\<rparr>"
    by (rule Cons.IH)
  also have "\<dots> = \<lparr>errors = errors t + countType Error (allIssues (c # cs)),
      warnings = warnings t + countType Warning (allIssues (c # cs)),
      info = info t + countType Info (allIssues (c # cs))\<rparr>"
    by (simp add: countCheck_def foldl_countIssue countType_def allIssues_def)
  finally show ?case .
qed

text \<open>
  C1: the totals computed by \<open>main\<close> are, field by field, the number of Error, Warning and
  Info issues over the issue lists of all checks of the report.
\<close>

theorem totals_are_severity_counts:
  "errors (computeTotals cs) = countType Error (allIssues cs) \<and>
   warnings (computeTotals cs) = countType Warning (allIssues cs) \<and>
   info (computeTotals cs) = countType Info (allIssues cs)"
  by (simp add: computeTotals_def foldl_countCheck)

text \<open>
  C2: \<open>calculateGrade\<close> is the first-match table A, B, C, D, F over (errors, warnings), and
  the info count plays no part: changing it leaves the grade unchanged.
\<close>

theorem calculateGrade_table:
  "calculateGrade r = gradeTable (errors (totals r)) (warnings (totals r)) \<and>
   calculateGrade (r\<lparr>totals := (totals r)\<lparr>info := k\<rparr>\<rparr>) = calculateGrade r"
  by (simp add: calculateGrade_def gradeTable_def Let_def)

subsection \<open>Compact issue encoding\<close>

lemma split_at_sep:
  "c \<notin> set a \<Longrightarrow> c \<notin> set a' \<Longrightarrow> a @ c # b = a' @ c # b' \<Longrightarrow> a = a' \<and> b = b'"
proof (induction a arbitrary: a')
  case Nil
  then show ?case by (cases a') auto
next
  case (Cons x xs)
  then show ?case by (cases a') auto
qed

lemma split_at_last_sep:
  assumes "c \<notin> set a" and "c \<notin> set b" and e: "f @ c # a = g @ c # b"
  shows "f = g \<and> a = b"
proof -
  from e have "rev (f @ c # a) = rev (g @ c # b)" by simp
  then have "rev a @ c # rev f = rev b @ c # rev g" by simp
  moreover from assms have "c \<notin> set (rev a)" "c \<notin> set (rev b)" by simp_all
  ultimately have "rev a = rev b \<and> rev f = rev g" by (intro split_at_sep)
  then show ?thesis by simp
qed

lemma truthy_text:
  assumes "toBoolean k"
  shows "numberText k \<noteq> []"
    and "list_all (\<lambda>c. c \<in> set ''0123456789+-.eInfity'') (numberText k)"
proof -
  have "isNumberText (numberText k)" using numberText [of k] by simp
  moreover from assms have "numberText k \<noteq> ''NaN''" by (simp add: toBoolean_def)
  ultimately show "numberText k \<noteq> []"
    and "list_all (\<lambda>c. c \<in> set ''0123456789+-.eInfity'') (numberText k)"
    by (simp_all add: isNumberText_def)
qed

lemma truthy_no_sep:
  assumes "toBoolean k"
  shows "CHR ''|'' \<notin> set (numberText k)" and "CHR '':'' \<notin> set (numberText k)"
proof -
  from truthy_text(2) [OF assms]
  have all: "\<forall>c \<in> set (numberText k). c \<in> set ''0123456789+-.eInfity''"
    by (simp only: list_all_iff)
  show "CHR ''|'' \<notin> set (numberText k)"
  proof
    assume "CHR ''|'' \<in> set (numberText k)"
    with all have "CHR ''|'' \<in> set ''0123456789+-.eInfity''" by blast
    then show False by simp
  qed
  show "CHR '':'' \<notin> set (numberText k)"
  proof
    assume "CHR '':'' \<in> set (numberText k)"
    with all have "CHR '':'' \<in> set ''0123456789+-.eInfity''" by blast
    then show False by simp
  qed
qed

lemma numbered_file:
  assumes "toBoolean k"
  shows "looksNumbered (g @ CHR '':'' # numberText k)"
proof -
  let ?d = "numberText k"
  let ?P = "\<lambda>c. c \<noteq> CHR '':''"
  have nc: "CHR '':'' \<notin> set ?d" using assms by (rule truthy_no_sep)
  have "takeWhile ?P (rev ?d @ CHR '':'' # rev g) = takeWhile ?P (rev ?d)"
    by (rule takeWhile_tail) simp
  moreover have "takeWhile ?P (rev ?d) = rev ?d"
    using nc by (simp only: takeWhile_eq_all_conv set_rev) blast
  moreover have "rev (g @ CHR '':'' # ?d) = rev ?d @ CHR '':'' # rev g" by simp
  ultimately have tw: "takeWhile ?P (rev (g @ CHR '':'' # ?d)) = rev ?d"
    by (simp only:)
  have all: "list_all (\<lambda>c. c \<in> set ''0123456789+-.eInfity'') (rev ?d)"
    using truthy_text(2) [OF assms] by (simp only: list_all_iff set_rev)
  have ne: "rev ?d \<noteq> []" using truthy_text(1) [OF assms] by simp
  have mem: "CHR '':'' \<in> set (g @ CHR '':'' # ?d)" by simp
  show ?thesis
    unfolding looksNumbered_def tw using mem ne all by (intro conjI)
qed

lemma compact_loc_alt:
  "compact_loc i = (case issueFile i of None \<Rightarrow> [] | Some f \<Rightarrow> if f = [] then [] else f @ lineSuffix (line i))"
  by (simp add: compact_loc_def lineSuffix_def split: option.splits)

lemma lineSuffix_no_bar: "CHR ''|'' \<notin> set (lineSuffix l)"
proof (cases l)
  case None
  then show ?thesis by (simp add: lineSuffix_def)
next
  case (Some k)
  then show ?thesis using truthy_no_sep(1) [of k] by (simp add: lineSuffix_def)
qed

lemma compact_loc_no_bar: "wfIssue i \<Longrightarrow> CHR ''|'' \<notin> set (compact_loc i)"
proof (cases "issueFile i")
  case None
  then show ?thesis by (simp add: compact_loc_alt)
next
  case (Some f)
  assume "wfIssue i"
  with Some have "CHR ''|'' \<notin> set f" by (simp add: wfIssue_def)
  with Some lineSuffix_no_bar [of "line i"] show ?thesis by (simp add: compact_loc_alt)
qed

lemma file_line_inj:
  assumes l: "case l of None \<Rightarrow> \<not> looksNumbered f | Some k \<Rightarrow> toBoolean k"
    and l': "case l' of None \<Rightarrow> \<not> looksNumbered g | Some k \<Rightarrow> toBoolean k"
    and e: "f @ lineSuffix l = g @ lineSuffix l'"
  shows "f = g \<and> l = l'"
proof (cases l)
  case None
  note ln = this
  show ?thesis
  proof (cases l')
    case None
    with ln e show ?thesis by (simp add: lineSuffix_def)
  next
    case (Some k')
    with l' have k': "toBoolean k'" by simp
    with ln Some e have "f = g @ CHR '':'' # numberText k'" by (simp add: lineSuffix_def)
    then have "looksNumbered f" by (simp add: numbered_file [OF k'])
    with ln l show ?thesis by simp
  qed
next
  case (Some k)
  note lk = this
  with l have k: "toBoolean k" by simp
  show ?thesis
  proof (cases l')
    case None
    with lk k e have "g = f @ CHR '':'' # numberText k" by (simp add: lineSuffix_def)
    then have "looksNumbered g" by (simp add: numbered_file [OF k])
    with None l' show ?thesis by simp
  next
    case (Some k')
    with l' have k': "toBoolean k'" by simp
    from lk Some k k' e have "f @ CHR '':'' # numberText k = g @ CHR '':'' # numberText k'"
      by (simp add: lineSuffix_def)
    moreover have "CHR '':'' \<notin> set (numberText k)" "CHR '':'' \<notin> set (numberText k')"
      using k k' by (simp_all add: truthy_no_sep)
    ultimately have "f = g \<and> numberText k = numberText k'" by (intro split_at_last_sep)
    with lk Some show ?thesis by (simp add: numberText_inject)
  qed
qed

lemma compact_loc_inj:
  assumes wi: "wfIssue i" and wj: "wfIssue j" and e: "compact_loc i = compact_loc j"
  shows "issueFile i = issueFile j \<and> line i = line j"
proof (cases "issueFile i")
  case None
  with wi have li: "line i = None" and ci: "compact_loc i = []"
    by (simp_all add: wfIssue_def compact_loc_alt)
  show ?thesis
  proof (cases "issueFile j")
    case None
    with wj \<open>issueFile i = None\<close> li show ?thesis by (simp add: wfIssue_def)
  next
    case (Some g)
    with wj have "compact_loc j \<noteq> []" by (simp add: wfIssue_def compact_loc_alt)
    with ci e show ?thesis by simp
  qed
next
  case (Some f)
  with wi have fi: "f \<noteq> []"
    and li: "case line i of None \<Rightarrow> \<not> looksNumbered f | Some k \<Rightarrow> toBoolean k"
    and ci: "compact_loc i = f @ lineSuffix (line i)"
    by (simp_all add: wfIssue_def compact_loc_alt)
  show ?thesis
  proof (cases "issueFile j")
    case None
    with wj have "compact_loc j = []" by (simp add: wfIssue_def compact_loc_alt)
    with ci e fi show ?thesis by simp
  next
    case (Some g)
    with wj have lj: "case line j of None \<Rightarrow> \<not> looksNumbered g | Some k \<Rightarrow> toBoolean k"
      and cj: "compact_loc j = g @ lineSuffix (line j)"
      by (simp_all add: wfIssue_def compact_loc_alt)
    from e ci cj have "f @ lineSuffix (line i) = g @ lineSuffix (line j)" by simp
    from file_line_inj [OF li lj this] Some \<open>issueFile i = Some f\<close> show ?thesis by simp
  qed
qed

lemma compact_t_inj: "compact_t i = compact_t j \<Longrightarrow> type i = type j"
  by (cases "type i"; cases "type j") (simp_all add: compact_t_def)

lemma compact_r_inj:
  "rule i \<noteq> Some [] \<Longrightarrow> rule j \<noteq> Some [] \<Longrightarrow> compact_r i = compact_r j \<Longrightarrow> rule i = rule j"
  by (cases "rule i"; cases "rule j") (simp_all add: compact_r_def)

lemma compact_r_no_bar: "wfIssue i \<Longrightarrow> CHR ''|'' \<notin> set (compact_r i) \<and> rule i \<noteq> Some []"
  by (cases "rule i") (simp_all add: wfIssue_def compact_r_def)

lemma compact_t_shape: "\<exists>c. compact_t i = [c] \<and> c \<noteq> CHR ''|''"
  by (simp add: compact_t_def)

text \<open>
  C4 (as amended): on issues that keep the separator out of the file and the rule, the
  compact string determines the severity, file, line, message and rule, so it can be decoded
  without loss: the location ends at the first separator after the letter, the rule starts
  after the last one. The conditions are those of \<open>wfIssue\<close>: a file, when present, is
  non-empty, has no \<open>|\<close> and, when the line is absent, does not end in a colon followed by
  characters of a printed number; a line, when present, comes with a file and is truthy
  (not 0, not \<open>NaN\<close>); a rule, when present, is non-empty and has no \<open>|\<close>. The message may
  contain \<open>|\<close>. The suggested fix is not part of the encoding.
\<close>

theorem compactIssue_lossless_on_wf:
  assumes wi: "wfIssue i" and wj: "wfIssue j" and e: "compactIssue i = compactIssue j"
  shows "type i = type j \<and> issueFile i = issueFile j \<and> line i = line j \<and>
         message i = message j \<and> rule i = rule j"
proof -
  obtain c where c: "compact_t i = [c]" "c \<noteq> CHR ''|''" using compact_t_shape by blast
  obtain d where d: "compact_t j = [d]" "d \<noteq> CHR ''|''" using compact_t_shape by blast
  let ?ri = "compact_loc i @ CHR ''|'' # message i @ CHR ''|'' # compact_r i"
  let ?rj = "compact_loc j @ CHR ''|'' # message j @ CHR ''|'' # compact_r j"
  from e c d have t: "compact_t i = compact_t j" and r1: "?ri = ?rj"
    by (simp_all add: compactIssue_def)
  from split_at_sep [OF compact_loc_no_bar [OF wi] compact_loc_no_bar [OF wj] r1]
  have l: "compact_loc i = compact_loc j"
    and r2: "message i @ CHR ''|'' # compact_r i = message j @ CHR ''|'' # compact_r j"
    by simp_all
  from compact_r_no_bar [OF wi] compact_r_no_bar [OF wj]
  have nb: "CHR ''|'' \<notin> set (compact_r i)" "CHR ''|'' \<notin> set (compact_r j)"
    and ne: "rule i \<noteq> Some []" "rule j \<noteq> Some []" by simp_all
  from split_at_last_sep [OF nb r2]
  have m: "message i = message j" and r: "compact_r i = compact_r j" by simp_all
  from compact_r_inj [OF ne r] compact_t_inj [OF t] compact_loc_inj [OF wi wj l] m
  show ?thesis by simp
qed

text \<open>
  The theorem at two issues that differ in the suggested fix only; the message has a \<open>|\<close>.
\<close>

theorem compactIssue_lossless_on_wf_witness:
  "wfIssue \<lparr>type = Error, issueFile = Some ''src/app.tsx'', line = Some (mkNumber ''42''),
            message = ''Type string | undefined is not assignable'', rule = Some ''TS2322'',
            issueFix = None\<rparr> \<and>
   wfIssue \<lparr>type = Error, issueFile = Some ''src/app.tsx'', line = Some (mkNumber ''42''),
            message = ''Type string | undefined is not assignable'', rule = Some ''TS2322'',
            issueFix = Some ''Narrow the type''\<rparr> \<and>
   compactIssue \<lparr>type = Error, issueFile = Some ''src/app.tsx'', line = Some (mkNumber ''42''),
            message = ''Type string | undefined is not assignable'', rule = Some ''TS2322'',
            issueFix = None\<rparr> =
     ''E|src/app.tsx:42|Type string | undefined is not assignable|TS2322'' \<and>
   compactIssue \<lparr>type = Error, issueFile = Some ''src/app.tsx'', line = Some (mkNumber ''42''),
            message = ''Type string | undefined is not assignable'', rule = Some ''TS2322'',
            issueFix = Some ''Narrow the type''\<rparr> =
     ''E|src/app.tsx:42|Type string | undefined is not assignable|TS2322'' \<and>
   type \<lparr>type = Error, issueFile = Some ''src/app.tsx'', line = Some (mkNumber ''42''),
            message = ''Type string | undefined is not assignable'', rule = Some ''TS2322'',
            issueFix = None\<rparr> = Error"
  using compactIssue_lossless_on_wf
    [of "\<lparr>type = Error, issueFile = Some ''src/app.tsx'', line = Some (mkNumber ''42''),
            message = ''Type string | undefined is not assignable'', rule = Some ''TS2322'',
            issueFix = None\<rparr>"
        "\<lparr>type = Error, issueFile = Some ''src/app.tsx'', line = Some (mkNumber ''42''),
            message = ''Type string | undefined is not assignable'', rule = Some ''TS2322'',
            issueFix = Some ''Narrow the type''\<rparr>"]
  by (simp add: wfIssue_def looksNumbered_def compactIssue_def compact_t_def compact_loc_def
      compact_r_def toBoolean_def mkNumber_inverse isNumberText_def)

text \<open>
  The claim as stated, for every issue, fails: a message with a \<open>|\<close> in it (a union type in
  a type error) and a different message with the rest moved into the rule have the same
  compact string, so no decoder recovers both.
\<close>

theorem compactIssue_not_lossless:
  "compactIssue \<lparr>type = Error, issueFile = Some ''src/a.ts'', line = Some (mkNumber ''3''),
       message = ''Type string | undefined is not assignable'', rule = Some ''TS2322'',
       issueFix = None\<rparr> =
   compactIssue \<lparr>type = Error, issueFile = Some ''src/a.ts'', line = Some (mkNumber ''3''),
       message = ''Type string '', rule = Some '' undefined is not assignable|TS2322'',
       issueFix = None\<rparr> \<and>
   message \<lparr>type = Error, issueFile = Some ''src/a.ts'', line = Some (mkNumber ''3''),
       message = ''Type string | undefined is not assignable'', rule = Some ''TS2322'',
       issueFix = None\<rparr> \<noteq>
   message \<lparr>type = Error, issueFile = Some ''src/a.ts'', line = Some (mkNumber ''3''),
       message = ''Type string '', rule = Some '' undefined is not assignable|TS2322'',
       issueFix = None\<rparr>"
  by (simp add: compactIssue_def compact_t_def compact_loc_def compact_r_def)

text \<open>
  Each remaining condition of \<open>wfIssue\<close> excludes a collision of its own: a file ending in a
  colon and a number (plain or in exponent form), a line 0, a line \<open>NaN\<close>, an empty file, an
  empty rule.
\<close>

lemma compactIssue_collisions:
  "compactIssue \<lparr>type = Info, issueFile = Some ''a:5'', line = None, message = ''m'',
       rule = None, issueFix = None\<rparr> =
   compactIssue \<lparr>type = Info, issueFile = Some ''a'', line = Some (mkNumber ''5''), message = ''m'',
       rule = None, issueFix = None\<rparr>"
  "compactIssue \<lparr>type = Info, issueFile = Some ''a:1e+21'', line = None, message = ''m'',
       rule = None, issueFix = None\<rparr> =
   compactIssue \<lparr>type = Info, issueFile = Some ''a'', line = Some (mkNumber ''1e+21''),
       message = ''m'', rule = None, issueFix = None\<rparr>"
  "compactIssue \<lparr>type = Info, issueFile = Some ''a'', line = Some (mkNumber ''0''), message = ''m'',
       rule = None, issueFix = None\<rparr> =
   compactIssue \<lparr>type = Info, issueFile = Some ''a'', line = None, message = ''m'',
       rule = None, issueFix = None\<rparr>"
  "compactIssue \<lparr>type = Info, issueFile = Some ''a'', line = Some (mkNumber ''NaN''), message = ''m'',
       rule = None, issueFix = None\<rparr> =
   compactIssue \<lparr>type = Info, issueFile = Some ''a'', line = None, message = ''m'',
       rule = None, issueFix = None\<rparr>"
  "compactIssue \<lparr>type = Info, issueFile = Some [], line = None, message = ''m'',
       rule = None, issueFix = None\<rparr> =
   compactIssue \<lparr>type = Info, issueFile = None, line = None, message = ''m'',
       rule = None, issueFix = None\<rparr>"
  "compactIssue \<lparr>type = Info, issueFile = None, line = None, message = ''m'',
       rule = Some [], issueFix = None\<rparr> =
   compactIssue \<lparr>type = Info, issueFile = None, line = None, message = ''m'',
       rule = None, issueFix = None\<rparr>"
  by (simp_all add: compactIssue_def compact_t_def compact_loc_def compact_r_def
      toBoolean_def mkNumber_inverse isNumberText_def)

text \<open>
  C9: when the file of an issue is absent, the location segment of the compact string is
  empty whatever the line is: two issues that differ in the line only have the same compact
  string, which is the letter, two separators, the message, a separator and the rule.
\<close>

theorem compactIssue_drops_line_without_file:
  assumes "issueFile i = None"
  shows "compact_loc i = [] \<and>
         compactIssue (i\<lparr>line := l1\<rparr>) = compactIssue (i\<lparr>line := l2\<rparr>) \<and>
         compactIssue i = compact_t i @ ''||'' @ message i @ ''|'' @ compact_r i"
  using assms
  by (simp add: compactIssue_def compact_t_def compact_loc_def compact_r_def)

text \<open>The theorem at a circular-dependency issue with lines 7 and 99.\<close>

theorem compactIssue_drops_line_without_file_witness:
  "issueFile \<lparr>type = Error, issueFile = None, line = Some (mkNumber ''7''),
       message = ''Circular: a.ts'', rule = Some ''madge/circular'', issueFix = None\<rparr> = None \<and>
   compactIssue (\<lparr>type = Error, issueFile = None, line = Some (mkNumber ''7''),
       message = ''Circular: a.ts'', rule = Some ''madge/circular'',
       issueFix = None\<rparr>\<lparr>line := Some (mkNumber ''7'')\<rparr>) =
   compactIssue (\<lparr>type = Error, issueFile = None, line = Some (mkNumber ''7''),
       message = ''Circular: a.ts'', rule = Some ''madge/circular'',
       issueFix = None\<rparr>\<lparr>line := Some (mkNumber ''99'')\<rparr>) \<and>
   compactIssue \<lparr>type = Error, issueFile = None, line = Some (mkNumber ''7''),
       message = ''Circular: a.ts'', rule = Some ''madge/circular'', issueFix = None\<rparr> =
     ''E||Circular: a.ts|madge/circular''"
  using compactIssue_drops_line_without_file
    [of "\<lparr>type = Error, issueFile = None, line = Some (mkNumber ''7''),
       message = ''Circular: a.ts'', rule = Some ''madge/circular'', issueFix = None\<rparr>"
        "Some (mkNumber ''7'')" "Some (mkNumber ''99'')"]
  by (simp add: compactIssue_def compact_loc_def compact_t_def compact_r_def)

subsection \<open>Status of a check\<close>

lemma countType_pos: "(countType ty is > 0) = list_ex (\<lambda>i. type i = ty) is"
  by (induction "is") (simp_all add: countType_def)

lemma uniform_rule:
  "(if countType Error is > 0 then Fail else if countType Warning is > 0 then Warn else Pass) =
   uniformStatus is"
  by (simp only: uniformStatus_def countType_pos)

text \<open>
  C3 (as amended): the oxlint, ESLint, knip, madge, architecture and TypeScript checks, when
  they run, take their status from their issues by the uniform rule (Fail on an Error, else
  Warn on a Warning, else Pass); the TypeScript check has Error issues only. The three
  other checks have thresholds: the duplicate-code check never fails and warns above 10
  warnings only; the complexity check fails on an Error and warns above 5 warnings only; the
  structure check fails on an Error and warns above 3 warnings only.
\<close>

lemma tscLineIssues_errors:
  "list_all (\<lambda>i. type i = Error) (tscLineIssues tscMatch ln)"
  by (cases "tscMatch ln") (auto simp add: tscLineIssues_def)

lemma tsc_issues_errors:
  "list_all (\<lambda>i. type i = Error) (concat (map (tscLineIssues tscMatch) lns))"
  by (induction lns) (simp_all add: tscLineIssues_errors)

lemma uniformStatus_errors:
  "list_all (\<lambda>i. type i = Error) is \<Longrightarrow>
   uniformStatus is = (if length is > 0 then Fail else Pass)"
  by (cases "is") (simp_all add: uniformStatus_def)

lemma checkTypeScript_uniform:
  "status (checkTypeScript tscMatch output d) =
   uniformStatus (issues (checkTypeScript tscMatch output d))"
  by (simp add: checkTypeScript_def Let_def uniformStatus_errors [OF tsc_issues_errors])

theorem check_status_rules:
  "status (checkOxlint r) = uniformStatus (issues (checkOxlint r)) \<and>
   status (checkEslint r) = uniformStatus (issues (checkEslint r)) \<and>
   status (checkKnip r) = uniformStatus (issues (checkKnip r)) \<and>
   status (checkMadge False r) = uniformStatus (issues (checkMadge False r)) \<and>
   status (checkArchitecture False True r) = uniformStatus (issues (checkArchitecture False True r)) \<and>
   status (checkTypeScript tscMatch output d) =
     uniformStatus (issues (checkTypeScript tscMatch output d)) \<and>
   list_all (\<lambda>i. type i = Error) (issues (checkTypeScript tscMatch output d)) \<and>
   status (checkJscpd False r) =
     (if countType Warning (issues (checkJscpd False r)) > 10 then Warn else Pass) \<and>
   status (checkComplexity cwd fs files t) =
     (if countType Error (issues (checkComplexity cwd fs files t)) > 0 then Fail
      else if countType Warning (issues (checkComplexity cwd fs files t)) > 5 then Warn
      else Pass) \<and>
   status (checkStructure folders features t) =
     (if countType Error (issues (checkStructure folders features t)) > 0 then Fail
      else if countType Warning (issues (checkStructure folders features t)) > 3 then Warn
      else Pass)"
proof -
  have ts: "list_all (\<lambda>i. type i = Error) (issues (checkTypeScript tscMatch output d))"
    by (simp add: checkTypeScript_def Let_def tsc_issues_errors)
  show ?thesis
    by (simp add: checkOxlint_def checkEslint_def checkKnip_def checkMadge_def
        checkArchitecture_def checkJscpd_def checkComplexity_def
        checkStructure_def Let_def uniform_rule checkTypeScript_uniform ts)
qed

text \<open>
  The uniform rule fails for the three checks with a threshold: a folder of 15 files, a file
  with an inline error boundary, and one duplicate block each give a single Warning issue
  and the status Pass.
\<close>

theorem status_not_uniform:
  "status (checkStructure
     [\<lparr>folderPath = ''components'', depth = 1, fileCount = 15, hasIndex = False,
       mixedContent = False\<rparr>] [] 0) = Pass \<and>
   map type (issues (checkStructure
     [\<lparr>folderPath = ''components'', depth = 1, fileCount = 15, hasIndex = False,
       mixedContent = False\<rparr>] [] 0)) = [Warning] \<and>
   status (checkComplexity ''/repo''
     [''/repo/apps/web/src/App.tsx'' \<mapsto> ''class AppErrorBoundary extends React.Component {}'']
     [''/repo/apps/web/src/App.tsx''] 0) = Pass \<and>
   map type (issues (checkComplexity ''/repo''
     [''/repo/apps/web/src/App.tsx'' \<mapsto> ''class AppErrorBoundary extends React.Component {}'']
     [''/repo/apps/web/src/App.tsx''] 0)) = [Warning] \<and>
   status (checkJscpd False
     \<lparr>pushed = [\<lparr>type = Warning, issueFile = Some ''a.ts'', line = Some (mkNumber ''3''),
                  message = ''Duplicate code (12 lines, L3-15) also in: b.ts (L7-19)'',
                  rule = Some ''jscpd/duplicate'', issueFix = None\<rparr>],
      elapsed = 0, raw = []\<rparr>) = Pass"
  by code_simp

text \<open>
  C6 (as amended): the three quick-mode skips have status Skip, no issue and no raw output,
  and carry their reason in the summary, \<open>Skipped (--quick mode)\<close>; the missing-configuration
  skip of the architecture check has status Skip, the summary \<open>Config not found\<close> and
  exactly one issue, of type Info, whose message tells what is missing; no other path of
  any check gives Skip.
\<close>

theorem skip_paths:
  "status (checkJscpd True r) = Skip \<and> issues (checkJscpd True r) = [] \<and>
   summary (checkJscpd True r) = ''Skipped (--quick mode)'' \<and>
   rawOutput (checkJscpd True r) = None \<and>
   status (checkMadge True r) = Skip \<and> issues (checkMadge True r) = [] \<and>
   summary (checkMadge True r) = ''Skipped (--quick mode)'' \<and>
   rawOutput (checkMadge True r) = None \<and>
   status (checkArchitecture True c r) = Skip \<and> issues (checkArchitecture True c r) = [] \<and>
   summary (checkArchitecture True c r) = ''Skipped (--quick mode)'' \<and>
   rawOutput (checkArchitecture True c r) = None \<and>
   status (checkArchitecture False False r) = Skip \<and>
   issues (checkArchitecture False False r) = [missingConfigIssue] \<and>
   summary (checkArchitecture False False r) = ''Config not found'' \<and>
   type missingConfigIssue = Info \<and>
   message missingConfigIssue =
     ''No .dependency-cruiser.cjs config found - skipping architecture check'' \<and>
   status (checkJscpd False r) \<noteq> Skip \<and>
   status (checkMadge False r) \<noteq> Skip \<and>
   status (checkArchitecture False True r) \<noteq> Skip \<and>
   status (checkOxlint r) \<noteq> Skip \<and>
   status (checkEslint r) \<noteq> Skip \<and>
   status (checkKnip r) \<noteq> Skip \<and>
   status (checkTypeScript tscMatch output d) \<noteq> Skip \<and>
   status (checkComplexity cwd fs files t) \<noteq> Skip \<and>
   status (checkStructure folders features t) \<noteq> Skip"
  by (simp add: checkOxlint_def checkEslint_def checkKnip_def checkMadge_def
      checkArchitecture_def checkTypeScript_def checkJscpd_def checkComplexity_def
      checkStructure_def Let_def missingConfigIssue_def)

text \<open>The architecture check without its configuration file: Skip, with one issue.\<close>

theorem skip_with_issue:
  "status (checkArchitecture False False \<lparr>pushed = [], elapsed = 2, raw = []\<rparr>) = Skip \<and>
   issues (checkArchitecture False False \<lparr>pushed = [], elapsed = 2, raw = []\<rparr>) \<noteq> [] \<and>
   length (issues (checkArchitecture False False \<lparr>pushed = [], elapsed = 2, raw = []\<rparr>)) = 1"
  by (simp add: checkArchitecture_def)

subsection \<open>Source analyzer\<close>

text \<open>What the matchers accept, stated without them.\<close>

lemma stripPrefix_Some: "(stripPrefix p s = Some r) = (s = p @ r)"
proof (induction p s rule: stripPrefix.induct)
  case (1 s)
  show ?case by auto
next
  case (2 p ps)
  show ?case by simp
next
  case (3 p ps c cs)
  then show ?case by auto
qed

lemma stripPrefix_head: "x \<noteq> y \<Longrightarrow> stripPrefix (x # xs) (y # ys) = None"
  by simp

lemma dropWhile_skip: "list_all P ws \<Longrightarrow> \<not> P x \<Longrightarrow> dropWhile P (ws @ x # r) = x # r"
  by (induction ws) simp_all

lemma mem_dropWhile: "x \<in> set ys \<Longrightarrow> \<not> P x \<Longrightarrow> x \<in> set (dropWhile P ys)"
  by (induction ys) auto

lemma dropWhile_to: "x \<in> set ys \<Longrightarrow> \<exists>d. dropWhile (\<lambda>c. c \<noteq> x) ys = x # d"
  by (induction ys) auto

lemma searchRe_suffix: "(searchRe m s \<noteq> None) = (\<exists>pre t. s = pre @ t \<and> m t \<noteq> None)"
proof (induction s)
  case Nil
  show ?case by simp
next
  case (Cons c cs)
  have "(\<exists>pre t. c # cs = pre @ t \<and> m t \<noteq> None) =
        (m (c # cs) \<noteq> None \<or> (\<exists>pre t. cs = pre @ t \<and> m t \<noteq> None))"
  proof
    assume "\<exists>pre t. c # cs = pre @ t \<and> m t \<noteq> None"
    then obtain pre t where e: "c # cs = pre @ t" and mt: "m t \<noteq> None" by blast
    show "m (c # cs) \<noteq> None \<or> (\<exists>pre t. cs = pre @ t \<and> m t \<noteq> None)"
    proof (cases pre)
      case Nil
      with e mt show ?thesis by simp
    next
      case (Cons p ps)
      with e have "cs = ps @ t" by simp
      with mt show ?thesis by blast
    qed
  next
    assume "m (c # cs) \<noteq> None \<or> (\<exists>pre t. cs = pre @ t \<and> m t \<noteq> None)"
    then show "\<exists>pre t. c # cs = pre @ t \<and> m t \<noteq> None"
    proof
      assume "m (c # cs) \<noteq> None"
      then have "c # cs = [] @ (c # cs) \<and> m (c # cs) \<noteq> None" by simp
      then show ?thesis by blast
    next
      assume "\<exists>pre t. cs = pre @ t \<and> m t \<noteq> None"
      then obtain pre t where "cs = pre @ t" "m t \<noteq> None" by blast
      then have "c # cs = (c # pre) @ t \<and> m t \<noteq> None" by simp
      then show ?thesis by blast
    qed
  qed
  with Cons.IH show ?case by (cases "m (c # cs)") auto
qed

lemma not_word_gt: "\<not> isWord CHR ''>''"
  by (simp add: isWord_def isAlpha_def inRange_def)

lemma not_space_paren: "\<not> isSpace CHR ''(''"
  by (simp add: isSpace_def)

lemma re_jsxTag_short: "re_jsxTag [] = None" "re_jsxTag [x] = None"
  by (simp_all add: re_jsxTag_def charIf_def)

lemma re_jsxTag_cons:
  "re_jsxTag (x # c # r) =
   (if x = CHR ''<'' \<and> isWord c
    then stripPrefix ''>'' (dropWhile (\<lambda>c. c \<noteq> CHR ''>'') (dropWhile isWord r))
    else None)"
  by (simp add: re_jsxTag_def charIf_def)

lemma gt_tail:
  "(stripPrefix ''>'' (dropWhile (\<lambda>c. c \<noteq> CHR ''>'') (dropWhile isWord r)) \<noteq> None) =
   (CHR ''>'' \<in> set r)"
proof
  let ?X = "dropWhile (\<lambda>c. c \<noteq> CHR ''>'') (dropWhile isWord r)"
  assume "stripPrefix ''>'' ?X \<noteq> None"
  then obtain d where "stripPrefix ''>'' ?X = Some d"
    by (cases "stripPrefix ''>'' ?X") simp_all
  then have eq: "?X = ''>'' @ d" by (simp only: stripPrefix_Some)
  have "CHR ''>'' \<in> set (''>'' @ d)" by simp
  then have "CHR ''>'' \<in> set ?X" by (simp only: eq)
  then have "CHR ''>'' \<in> set (dropWhile isWord r)" by (rule set_dropWhileD)
  then show "CHR ''>'' \<in> set r" by (rule set_dropWhileD)
next
  let ?X = "dropWhile (\<lambda>c. c \<noteq> CHR ''>'') (dropWhile isWord r)"
  assume g: "CHR ''>'' \<in> set r"
  then have "CHR ''>'' \<in> set (dropWhile isWord r)" using not_word_gt by (rule mem_dropWhile)
  from dropWhile_to [OF this] obtain d where eq: "?X = CHR ''>'' # d" ..
  have "stripPrefix ''>'' (CHR ''>'' # d) = Some d" by simp
  then have "stripPrefix ''>'' ?X = Some d" by (simp only: eq)
  then show "stripPrefix ''>'' ?X \<noteq> None" by simp
qed

lemma re_jsxTag_simple:
  "(re_jsxTag s \<noteq> None) = (\<exists>c r. s = CHR ''<'' # c # r \<and> isWord c \<and> CHR ''>'' \<in> set r)"
proof (cases s)
  case Nil
  then show ?thesis by (simp add: re_jsxTag_short)
next
  case (Cons x s1)
  note sx = this
  show ?thesis
  proof (cases s1)
    case Nil
    with sx show ?thesis by (simp add: re_jsxTag_short)
  next
    case (Cons c r)
    with sx have s: "s = x # c # r" by simp
    show ?thesis unfolding s re_jsxTag_cons using gt_tail [of r] by auto
  qed
qed

lemma tagAt_simple:
  "tagAt s = (\<exists>c r. s = CHR ''<'' # c # r \<and> isWord c \<and> CHR ''>'' \<in> set r)"
proof
  assume "tagAt s"
  then obtain w b d where s: "s = CHR ''<'' # w @ b @ CHR ''>'' # d" and w: "w \<noteq> []"
    and ww: "list_all isWord w" unfolding tagAt_def by blast
  from w obtain c w' where cw: "w = c # w'" by (cases w) simp_all
  with s ww have "s = CHR ''<'' # c # (w' @ b @ CHR ''>'' # d)" "isWord c"
    "CHR ''>'' \<in> set (w' @ b @ CHR ''>'' # d)" by simp_all
  then show "\<exists>c r. s = CHR ''<'' # c # r \<and> isWord c \<and> CHR ''>'' \<in> set r" by blast
next
  assume "\<exists>c r. s = CHR ''<'' # c # r \<and> isWord c \<and> CHR ''>'' \<in> set r"
  then obtain c r where s: "s = CHR ''<'' # c # r" and c: "isWord c" and g: "CHR ''>'' \<in> set r"
    by blast
  from split_list_first [OF g]
  obtain b d where r: "r = b @ CHR ''>'' # d" and nb: "CHR ''>'' \<notin> set b" by blast
  from s r c nb have "s = CHR ''<'' # [c] @ b @ CHR ''>'' # d \<and> [c] \<noteq> [] \<and>
      list_all isWord [c] \<and> CHR ''>'' \<notin> set b" by simp
  then show "tagAt s" unfolding tagAt_def by blast
qed

lemma hasJsx_containsTag: "hasJsx content = containsTag content"
proof -
  have "hasJsx content = (\<exists>pre t. content = pre @ t \<and> re_jsxTag t \<noteq> None)"
    unfolding hasJsx_def testRe_def by (rule searchRe_suffix)
  also have "\<dots> = (\<exists>pre t. content = pre @ t \<and> tagAt t)"
    by (simp only: re_jsxTag_simple tagAt_simple)
  finally show ?thesis by (simp only: containsTag_def)
qed

lemma re_call_Some:
  "(re_call nm s = Some rest) = (\<exists>ws. s = nm @ ws @ CHR ''('' # rest \<and> list_all isSpace ws)"
proof
  assume m: "re_call nm s = Some rest"
  then obtain r where r: "stripPrefix nm s = Some r"
    by (cases "stripPrefix nm s") (simp_all add: re_call_def)
  then have s: "s = nm @ r" by (simp add: stripPrefix_Some)
  from m r have "oneOf ''('' (dropWhile isSpace r) = Some rest" by (simp add: re_call_def)
  then have d: "dropWhile isSpace r = CHR ''('' # rest"
    by (cases "dropWhile isSpace r") (simp_all add: oneOf_def charIf_def split: if_splits)
  have "r = takeWhile isSpace r @ dropWhile isSpace r" by simp
  with d have "r = takeWhile isSpace r @ CHR ''('' # rest" by simp
  moreover have "list_all isSpace (takeWhile isSpace r)"
    by (induction r) simp_all
  ultimately show "\<exists>ws. s = nm @ ws @ CHR ''('' # rest \<and> list_all isSpace ws"
    using s by blast
next
  assume "\<exists>ws. s = nm @ ws @ CHR ''('' # rest \<and> list_all isSpace ws"
  then obtain ws where s: "s = nm @ ws @ CHR ''('' # rest" and ws: "list_all isSpace ws"
    by blast
  from s have "stripPrefix nm s = Some (ws @ CHR ''('' # rest)" by (simp add: stripPrefix_Some)
  moreover have "dropWhile isSpace (ws @ CHR ''('' # rest) = CHR ''('' # rest"
    using ws not_space_paren by (rule dropWhile_skip)
  ultimately show "re_call nm s = Some rest" by (simp add: re_call_def oneOf_def charIf_def)
qed

lemma re_call_callAt: "(re_call nm s \<noteq> None) = callAt nm s"
proof -
  have "(re_call nm s \<noteq> None) = (\<exists>rest. re_call nm s = Some rest)" by auto
  also have "\<dots> = callAt nm s" unfolding re_call_Some callAt_def by blast
  finally show ?thesis .
qed

text \<open>
  No call starts inside another call of the same name, so the matches that the \<open>g\<close> flag
  counts from left to right are all the positions where a call starts.
\<close>

lemma countFrom_occurrences:
  assumes no_overlap:
    "\<And>s rest i. m s = Some rest \<Longrightarrow> 0 < i \<Longrightarrow> i < length s - length rest \<Longrightarrow>
       m (drop i s) = None"
  shows "(\<And>i. i < k \<Longrightarrow> i < length s \<Longrightarrow> m (drop i s) = None) \<Longrightarrow>
         countFrom (\<lambda>prev. m) prev k s = occurrences (\<lambda>t. m t \<noteq> None) s"
proof (induction s arbitrary: prev k)
  case Nil
  show ?case by simp
next
  case (Cons c cs)
  show ?case
  proof (cases k)
    case 0
    show ?thesis
    proof (cases "m (c # cs)")
      case None
      have "countFrom (\<lambda>prev. m) (Some c) 0 cs = occurrences (\<lambda>t. m t \<noteq> None) cs"
        by (rule Cons.IH) simp
      with None \<open>k = 0\<close> show ?thesis by simp
    next
      case (Some rest)
      let ?k = "length cs - length rest"
      have "countFrom (\<lambda>prev. m) (Some c) ?k cs = occurrences (\<lambda>t. m t \<noteq> None) cs"
      proof (rule Cons.IH)
        fix i
        assume i: "i < ?k" and "i < length cs"
        have "m (drop (Suc i) (c # cs)) = None"
          using Some by (rule no_overlap) (use i in simp_all)
        then show "m (drop i cs) = None" by simp
      qed
      with Some \<open>k = 0\<close> show ?thesis by simp
    qed
  next
    case (Suc k')
    have "m (drop 0 (c # cs)) = None" by (rule Cons.prems) (simp_all add: Suc)
    then have none: "m (c # cs) = None" by simp
    have "countFrom (\<lambda>prev. m) (Some c) k' cs = occurrences (\<lambda>t. m t \<noteq> None) cs"
    proof (rule Cons.IH)
      fix i
      assume i: "i < k'" and l: "i < length cs"
      have "m (drop (Suc i) (c # cs)) = None"
        by (rule Cons.prems) (use i l Suc in simp_all)
      then show "m (drop i cs) = None" by simp
    qed
    with none Suc show ?thesis by simp
  qed
qed

lemma drop_inside:
  "j < length v \<Longrightarrow> \<exists>y t. drop j (v @ rest) = y # t \<and> y \<in> set v"
proof -
  assume j: "j < length v"
  then have "drop j (v @ rest) = (v ! j) # (drop (Suc j) v @ rest)"
    by (simp add: Cons_nth_drop_Suc)
  moreover from j have "v ! j \<in> set v" by (rule nth_mem)
  ultimately show ?thesis by blast
qed

lemma re_call_no_overlap:
  assumes x: "x \<notin> set xs" "\<not> isSpace x" "x \<noteq> CHR ''(''"
    and m: "re_call (x # xs) s = Some rest" and i: "0 < i" "i < length s - length rest"
  shows "re_call (x # xs) (drop i s) = None"
proof -
  from m obtain ws where s: "s = (x # xs) @ ws @ CHR ''('' # rest" and ws: "list_all isSpace ws"
    unfolding re_call_Some by blast
  define v where "v = xs @ ws @ ''(''"
  have sv: "s = x # v @ rest" using s by (simp add: v_def)
  from ws x(2) have "x \<notin> set ws" unfolding list_all_iff by blast
  with x have xv: "x \<notin> set v" by (simp add: v_def)
  from i obtain j where j: "i = Suc j" by (cases i) simp_all
  from i(2) have "j < length v" unfolding sv j by simp
  from drop_inside [OF this, of rest]
  obtain y t where d: "drop j (v @ rest) = y # t" and y: "y \<in> set v" by blast
  from y xv have "y \<noteq> x" by blast
  moreover have "drop i s = y # t" unfolding sv j using d by simp
  ultimately have "stripPrefix (x # xs) (drop i s) = None" by simp
  then show ?thesis by (simp add: re_call_def)
qed

lemma occurrences_card: "occurrences P s = card {i. i < length s \<and> P (drop i s)}"
proof (induction s)
  case Nil
  show ?case by simp
next
  case (Cons c cs)
  let ?A = "{i. i < length cs \<and> P (drop i cs)}"
  let ?B = "{i. i < length (c # cs) \<and> P (drop i (c # cs))}"
  let ?Z = "if P (c # cs) then {0::nat} else {}"
  have fin: "finite ?A" by simp
  have B: "?B = ?Z \<union> Suc ` ?A"
  proof (rule set_eqI)
    fix i
    show "(i \<in> ?B) = (i \<in> ?Z \<union> Suc ` ?A)"
    proof (cases i)
      case 0
      then show ?thesis by auto
    next
      case (Suc j)
      then show ?thesis by auto
    qed
  qed
  have disj: "?Z \<inter> Suc ` ?A = {}" by auto
  have "card ?B = card ?Z + card (Suc ` ?A)"
    unfolding B by (rule card_Un_disjoint) (use fin disj in simp_all)
  also have "card (Suc ` ?A) = card ?A" by (rule card_image) simp
  finally have "card ?B = (if P (c # cs) then 1 else 0) + card ?A" by simp
  with Cons.IH show ?case by simp
qed

lemma countMatches_callCount:
  assumes x: "x \<notin> set xs" "\<not> isSpace x" "x \<noteq> CHR ''(''"
  shows "countMatches (re_call (x # xs)) content = callCount (x # xs) content"
proof -
  have "countFrom (\<lambda>prev. re_call (x # xs)) None 0 content =
        occurrences (\<lambda>t. re_call (x # xs) t \<noteq> None) content"
    by (rule countFrom_occurrences) (use x in \<open>simp_all add: re_call_no_overlap\<close>)
  then show ?thesis
    by (simp only: countMatches_def re_call_callAt occurrences_card callCount_def)
qed

lemma call_counts:
  "countMatches (re_call ''.map'') content = callCount ''.map'' content"
  "countMatches (re_call ''.filter'') content = callCount ''.filter'' content"
  "countMatches (re_call ''if'') content = callCount ''if'' content"
  by (rule countMatches_callCount; simp add: isSpace_def)+

text \<open>
  C7: the mixed-concerns flag holds exactly when the content has a tag-like construct and
  ((more than 3 \<open>.map(\<close> calls and more than 2 \<open>.filter(\<close> calls) or more than 10 \<open>if (\<close>
  conditions). The grouping is this one and not A and (B or C): a tag with eleven \<open>if (\<close>
  and no \<open>.map(\<close> is flagged, which the other grouping would not flag. The further
  conjuncts are texts at the edges of the rule: no tag, a \<open><\<close> that opens no tag, ten
  conditions, four and three calls with white space before the parenthesis, too few
  \<open>.filter(\<close> calls, too few \<open>.map(\<close> calls, and a longer name that is not a call of \<open>map\<close>.
\<close>

theorem detectMixedConcerns_grouping:
  "detectMixedConcerns content = mixedConcernsSpec content \<and>
   detectMixedConcerns (''<a>'' @ concat (replicate 11 ''if (x) '')) \<and>
   \<not> mixedConcernsRegrouped (''<a>'' @ concat (replicate 11 ''if (x) '')) \<and>
   \<not> detectMixedConcerns (concat (replicate 11 ''if (x) '')) \<and>
   \<not> detectMixedConcerns (''a < b > c '' @ concat (replicate 11 ''if (x) '')) \<and>
   \<not> detectMixedConcerns (''<a>'' @ concat (replicate 10 ''if (x) '')) \<and>
   detectMixedConcerns
     (''<a>'' @ concat (replicate 4 ''.map ('') @ concat (replicate 3 ''.filter ('')) \<and>
   \<not> detectMixedConcerns
     (''<a>'' @ concat (replicate 4 ''.map('') @ concat (replicate 2 ''.filter('')) \<and>
   \<not> detectMixedConcerns
     (''<a>'' @ concat (replicate 3 ''.map('') @ concat (replicate 3 ''.filter('')) \<and>
   \<not> detectMixedConcerns
     (''<a>'' @ concat (replicate 4 ''.mapx('') @ concat (replicate 3 ''.filter(''))"
proof -
  have spec: "detectMixedConcerns content = mixedConcernsSpec content" for content
    by (simp only: detectMixedConcerns_def hasHeavyLogic_def mixedConcernsSpec_def
        hasJsx_containsTag call_counts)
  have yes: "detectMixedConcerns (''<a>'' @ concat (replicate 11 ''if (x) ''))"
    by code_simp
  have "\<not> countMatches (re_call ''.map'') (''<a>'' @ concat (replicate 11 ''if (x) '')) > 3"
    by code_simp
  then have no: "\<not> mixedConcernsRegrouped (''<a>'' @ concat (replicate 11 ''if (x) ''))"
    by (simp only: mixedConcernsRegrouped_def call_counts simp_thms)
  have t1: "\<not> detectMixedConcerns (concat (replicate 11 ''if (x) ''))"
    by code_simp
  have t2: "\<not> detectMixedConcerns (''a < b > c '' @ concat (replicate 11 ''if (x) ''))"
    by code_simp
  have t3: "\<not> detectMixedConcerns (''<a>'' @ concat (replicate 10 ''if (x) ''))"
    by code_simp
  have t4: "detectMixedConcerns
     (''<a>'' @ concat (replicate 4 ''.map ('') @ concat (replicate 3 ''.filter (''))"
    by code_simp
  have t5: "\<not> detectMixedConcerns
     (''<a>'' @ concat (replicate 4 ''.map('') @ concat (replicate 2 ''.filter(''))"
    by code_simp
  have t6: "\<not> detectMixedConcerns
     (''<a>'' @ concat (replicate 3 ''.map('') @ concat (replicate 3 ''.filter(''))"
    by code_simp
  have t7: "\<not> detectMixedConcerns
     (''<a>'' @ concat (replicate 4 ''.mapx('') @ concat (replicate 3 ''.filter(''))"
    by code_simp
  from spec yes no t1 t2 t3 t4 t5 t6 t7 show ?thesis by (intro conjI)
qed

text \<open>
  C8: the count \<open>custom\<close> that \<open>analyzeFile\<close> gives for a file whose only hook is a typed
  \<open>useState\<close> call. The generic expression wants \<open>(\<close> after the name and finds nothing; the
  expression of the named hooks takes the bare name and finds one; the difference is -1, and
  the hook total of the component is 0 although it calls one hook.
\<close>

theorem custom_count_negative:
  "map_option (\<lambda>a. (custom (hooks a), useState (hooks a), totalHooks (hooks a)))
     (analyzeFile
        [''/repo/apps/web/src/Counter.tsx'' \<mapsto> ''const [n, setN] = useState<number>(0);'']
        ''/repo/apps/web/src/Counter.tsx'') = Some (- 1, 1, 0)"
  by code_simp

text \<open>Each block of the loop body of \<open>checkComplexity\<close> only appends to the issue list.\<close>

lemma push_foldl:
  "accIssues (foldl (\<lambda>acc x. push (g x) acc) acc xs) = accIssues acc @ map g xs"
  by (induction xs arbitrary: acc) (simp_all add: push_def)

lemma longFunctionBlock_adds:
  "accIssues (longFunctionBlock rel a acc) =
   accIssues acc @ map (longFunctionIssue rel) (take 3 (longFunctionList (patterns a)))"
  by (simp add: longFunctionBlock_def push_foldl)

lemma block_adds:
  "\<exists>xs. (\<forall>acc. accIssues (fileSizeBlock rel a acc) = accIssues acc @ xs) \<and>
        filter isLongFunctionIssue xs = []"
  "\<exists>xs. (\<forall>acc. accIssues (hookCountBlock rel a acc) = accIssues acc @ xs) \<and>
        filter isLongFunctionIssue xs = []"
  "\<exists>xs. (\<forall>acc. accIssues (effectBlock rel a acc) = accIssues acc @ xs) \<and>
        filter isLongFunctionIssue xs = []"
  "\<exists>xs. (\<forall>acc. accIssues (memoBlock rel a acc) = accIssues acc @ xs) \<and>
        filter isLongFunctionIssue xs = []"
  "\<exists>xs. (\<forall>acc. accIssues (errorBoundaryBlock rel a acc) = accIssues acc @ xs) \<and>
        filter isLongFunctionIssue xs = []"
  "\<exists>xs. (\<forall>acc. accIssues (multipleComponentsBlock rel a acc) = accIssues acc @ xs) \<and>
        filter isLongFunctionIssue xs = []"
  "\<exists>xs. (\<forall>acc. accIssues (mixedConcernsBlock rel a acc) = accIssues acc @ xs) \<and>
        filter isLongFunctionIssue xs = []"
proof -
  show "\<exists>xs. (\<forall>acc. accIssues (fileSizeBlock rel a acc) = accIssues acc @ xs) \<and>
        filter isLongFunctionIssue xs = []"
    by (rule exI [of _ "accIssues (fileSizeBlock rel a emptyAcc)"])
       (simp add: fileSizeBlock_def push_def emptyAcc_def isLongFunctionIssue_def)
  show "\<exists>xs. (\<forall>acc. accIssues (hookCountBlock rel a acc) = accIssues acc @ xs) \<and>
        filter isLongFunctionIssue xs = []"
    by (rule exI [of _ "accIssues (hookCountBlock rel a emptyAcc)"])
       (simp add: hookCountBlock_def push_def emptyAcc_def isLongFunctionIssue_def Let_def)
  show "\<exists>xs. (\<forall>acc. accIssues (effectBlock rel a acc) = accIssues acc @ xs) \<and>
        filter isLongFunctionIssue xs = []"
    by (rule exI [of _ "accIssues (effectBlock rel a emptyAcc)"])
       (simp add: effectBlock_def push_def emptyAcc_def isLongFunctionIssue_def)
  show "\<exists>xs. (\<forall>acc. accIssues (memoBlock rel a acc) = accIssues acc @ xs) \<and>
        filter isLongFunctionIssue xs = []"
    by (rule exI [of _ "accIssues (memoBlock rel a emptyAcc)"])
       (simp add: memoBlock_def push_def emptyAcc_def isLongFunctionIssue_def)
  show "\<exists>xs. (\<forall>acc. accIssues (errorBoundaryBlock rel a acc) = accIssues acc @ xs) \<and>
        filter isLongFunctionIssue xs = []"
    by (rule exI [of _ "accIssues (errorBoundaryBlock rel a emptyAcc)"])
       (simp add: errorBoundaryBlock_def push_def emptyAcc_def isLongFunctionIssue_def)
  show "\<exists>xs. (\<forall>acc. accIssues (multipleComponentsBlock rel a acc) = accIssues acc @ xs) \<and>
        filter isLongFunctionIssue xs = []"
    by (rule exI [of _ "accIssues (multipleComponentsBlock rel a emptyAcc)"])
       (simp add: multipleComponentsBlock_def push_def emptyAcc_def isLongFunctionIssue_def)
  show "\<exists>xs. (\<forall>acc. accIssues (mixedConcernsBlock rel a acc) = accIssues acc @ xs) \<and>
        filter isLongFunctionIssue xs = []"
    by (rule exI [of _ "accIssues (mixedConcernsBlock rel a emptyAcc)"])
       (simp add: mixedConcernsBlock_def push_def emptyAcc_def isLongFunctionIssue_def)
qed

lemma longFunctionIssue_is: "filter isLongFunctionIssue (map (longFunctionIssue rel) fs) = map (longFunctionIssue rel) fs"
  by (induction fs) (simp_all add: isLongFunctionIssue_def longFunctionIssue_def)

lemma complexityFile_adds:
  "\<exists>xs. (\<forall>acc. accIssues (complexityFile cwd f a acc) = accIssues acc @ xs) \<and>
        filter isLongFunctionIssue xs =
          map (longFunctionIssue (relativePath cwd f)) (take 3 (longFunctionList (patterns a)))"
proof -
  let ?rel = "relativePath cwd f"
  let ?lf = "map (longFunctionIssue ?rel) (take 3 (longFunctionList (patterns a)))"
  obtain x1 where x1: "\<And>acc. accIssues (fileSizeBlock ?rel a acc) = accIssues acc @ x1"
    "filter isLongFunctionIssue x1 = []" using block_adds(1) by blast
  obtain x2 where x2: "\<And>acc. accIssues (hookCountBlock ?rel a acc) = accIssues acc @ x2"
    "filter isLongFunctionIssue x2 = []" using block_adds(2) by blast
  obtain x3 where x3: "\<And>acc. accIssues (effectBlock ?rel a acc) = accIssues acc @ x3"
    "filter isLongFunctionIssue x3 = []" using block_adds(3) by blast
  obtain x4 where x4: "\<And>acc. accIssues (memoBlock ?rel a acc) = accIssues acc @ x4"
    "filter isLongFunctionIssue x4 = []" using block_adds(4) by blast
  obtain x5 where x5: "\<And>acc. accIssues (errorBoundaryBlock ?rel a acc) = accIssues acc @ x5"
    "filter isLongFunctionIssue x5 = []" using block_adds(5) by blast
  obtain x6 where x6: "\<And>acc. accIssues (multipleComponentsBlock ?rel a acc) = accIssues acc @ x6"
    "filter isLongFunctionIssue x6 = []" using block_adds(6) by blast
  obtain x7 where x7: "\<And>acc. accIssues (mixedConcernsBlock ?rel a acc) = accIssues acc @ x7"
    "filter isLongFunctionIssue x7 = []" using block_adds(7) by blast
  show ?thesis
  proof (cases "endsWith f ''.tsx''")
    case True
    show ?thesis
      by (rule exI [of _ "x1 @ x2 @ x3 @ x4 @ x5 @ x6 @ ?lf @ x7"])
         (simp add: complexityFile_def Let_def True x1 x2 x3 x4 x5 x6 x7
            longFunctionBlock_adds longFunctionIssue_is)
  next
    case False
    show ?thesis
      by (rule exI [of _ "x1 @ x5 @ x6 @ ?lf @ x7"])
         (simp add: complexityFile_def Let_def False x1 x5 x6 x7
            longFunctionBlock_adds longFunctionIssue_is)
  qed
qed

lemma complexityFile_emitted:
  "accIssues (complexityFile cwd f a acc) = accIssues acc @ emitted cwd f a"
proof -
  obtain xs where xs: "\<And>acc. accIssues (complexityFile cwd f a acc) = accIssues acc @ xs"
    using complexityFile_adds by blast
  have "emitted cwd f a = xs" by (simp add: emitted_def xs emptyAcc_def)
  with xs show ?thesis by simp
qed

lemma emitted_long_functions:
  "filter isLongFunctionIssue (emitted cwd f a) =
     map (longFunctionIssue (relativePath cwd f)) (take 3 (longFunctionList (patterns a)))"
proof -
  obtain xs where xs: "\<And>acc. accIssues (complexityFile cwd f a acc) = accIssues acc @ xs"
    and lf: "filter isLongFunctionIssue xs =
          map (longFunctionIssue (relativePath cwd f)) (take 3 (longFunctionList (patterns a)))"
    using complexityFile_adds by blast
  have "emitted cwd f a = xs" by (simp add: emitted_def xs emptyAcc_def)
  with lf show ?thesis by simp
qed

lemma complexity_loop_issues:
  "accIssues (foldl (complexityLoop cwd fs) acc files) =
   accIssues acc @
   concat (map (\<lambda>f. case analyzeFile fs f of None \<Rightarrow> [] | Some a \<Rightarrow> emitted cwd f a) files)"
proof (induction files arbitrary: acc)
  case Nil
  show ?case by simp
next
  case (Cons f files)
  have head: "accIssues (complexityLoop cwd fs acc f) =
      accIssues acc @ (case analyzeFile fs f of None \<Rightarrow> [] | Some a \<Rightarrow> emitted cwd f a)"
    by (cases "analyzeFile fs f") (simp_all add: complexityLoop_def complexityFile_emitted)
  have "accIssues (foldl (complexityLoop cwd fs) acc (f # files)) =
        accIssues (foldl (complexityLoop cwd fs) (complexityLoop cwd fs acc f) files)"
    by simp
  also have "\<dots> = accIssues (complexityLoop cwd fs acc f) @
      concat (map (\<lambda>f. case analyzeFile fs f of None \<Rightarrow> [] | Some a \<Rightarrow> emitted cwd f a) files)"
    by (rule Cons.IH)
  finally show ?case by (simp add: head)
qed

lemma checkComplexity_issues:
  "issues (checkComplexity cwd fs files t) =
   concat (map (\<lambda>f. case analyzeFile fs f of None \<Rightarrow> [] | Some a \<Rightarrow> emitted cwd f a) files)"
  by (simp add: checkComplexity_def Let_def complexity_loop_issues emptyAcc_def)

text \<open>
  C10: among the issues that the complexity check adds for one analyzed file, those of rule
  \<open>complexity/long-function\<close> are the Warning issues of the first three detected long
  functions, in order: at most 3, however many the analysis has found.
\<close>

theorem long_function_issues_capped:
  "filter isLongFunctionIssue (emitted cwd f a) =
     map (longFunctionIssue (relativePath cwd f)) (take 3 (longFunctionList (patterns a))) \<and>
   length (filter isLongFunctionIssue (emitted cwd f a)) =
     min 3 (length (longFunctionList (patterns a))) \<and>
   length (filter isLongFunctionIssue (emitted cwd f a)) \<le> 3 \<and>
   type (longFunctionIssue (relativePath cwd f) func) = Warning \<and>
   accIssues (complexityFile cwd f a acc) = accIssues acc @ emitted cwd f a"
  by (simp add: emitted_long_functions complexityFile_emitted min_def longFunctionIssue_def)

subsection \<open>Function-length detector\<close>

text \<open>Splitting the joined lines gives the lines back.\<close>

lemma split_nl_single: "noLineFeed l \<Longrightarrow> split_nl l = [l]"
  by (induction l) (auto simp add: noLineFeed_def)

lemma split_nl_line: "noLineFeed l \<Longrightarrow> split_nl (l @ CHR 0x0A # r) = l # split_nl r"
  by (induction l) (auto simp add: noLineFeed_def)

lemma split_join: "ls \<noteq> [] \<Longrightarrow> list_all noLineFeed ls \<Longrightarrow> split_nl (join_nl ls) = ls"
proof (induction ls rule: join_nl.induct)
  case 1
  then show ?case by simp
next
  case (2 l)
  then show ?case by (simp add: split_nl_single)
next
  case (3 l l' ls)
  then show ?case by (simp add: split_nl_line)
qed

text \<open>
  The four ways a line moves the detector: a line outside a function, the line of a
  declaration, a line that leaves the depth positive, the line that closes the function.
\<close>

lemma lfScan_append: "lfScan i (xs @ ys) s = lfScan (i + length xs) ys (lfScan i xs s)"
  by (induction xs arbitrary: i s) simp_all

lemma step_other:
  "\<not> inFunction s \<Longrightarrow> funcMatch l = None \<Longrightarrow>
   lfStep i l s = s\<lparr>braceDepth := braceDepth s + braceDelta l\<rparr>"
  by (simp add: lfStep_def lfStart_def lfEnd_def Let_def)

lemma step_decl:
  "\<not> inFunction s \<Longrightarrow> funcMatch l \<noteq> None \<Longrightarrow>
   lfStep i l s = s\<lparr>currentFunction := reportedName l, functionStartLine := i,
                    inFunction := True, braceDepth := braceDelta l\<rparr>"
  by (auto simp add: lfStep_def lfStart_def lfEnd_def Let_def reportedName_def)

lemma step_inside:
  "inFunction s \<Longrightarrow> braceDepth s + braceDelta l > 0 \<Longrightarrow>
   lfStep i l s = s\<lparr>braceDepth := braceDepth s + braceDelta l\<rparr>"
  by (simp add: lfStep_def lfStart_def lfEnd_def Let_def split: option.splits)

lemma step_close:
  "inFunction s \<Longrightarrow> braceDepth s + braceDelta l \<le> 0 \<Longrightarrow> functionStartLine s < i \<Longrightarrow>
   inFunction (lfStep i l s) = False \<and>
   longFunctions (lfStep i l s) =
     longFunctions s @
     (if i - functionStartLine s > 80
      then [currentFunction s @ '' ('' @ showNat (i - functionStartLine s) @ '' lines)'']
      else [])"
  by (simp add: lfStep_def lfStart_def lfEnd_def Let_def split: option.splits)

lemma scan_inside:
  "inFunction s \<Longrightarrow> staysOpen (braceDepth s) ls \<Longrightarrow>
   lfScan i ls s = s\<lparr>braceDepth := depthAfter (braceDepth s) ls\<rparr>"
proof (induction ls arbitrary: i s)
  case Nil
  then show ?case by simp
next
  case (Cons l ls)
  from Cons.prems have open1: "braceDepth s + braceDelta l > 0"
    and rest: "staysOpen (braceDepth s + braceDelta l) ls" by simp_all
  let ?s = "s\<lparr>braceDepth := braceDepth s + braceDelta l\<rparr>"
  have st: "lfStep i l s = ?s" using Cons.prems(1) open1 by (rule step_inside)
  have "lfScan (Suc i) ls ?s = ?s\<lparr>braceDepth := depthAfter (braceDepth ?s) ls\<rparr>"
    by (rule Cons.IH) (use Cons.prems(1) rest in simp_all)
  then show ?case by (simp add: st)
qed

lemma depthAfter_append: "depthAfter d (xs @ ys) = depthAfter (depthAfter d xs) ys"
  by (induction xs arbitrary: d) simp_all

lemma scan_function:
  assumes idle: "\<not> inFunction s" and tr: "trackedFunction ls"
  shows "inFunction (lfScan i ls s) = False \<and>
         longFunctions (lfScan i ls s) = longFunctions s @ expectedReport (Func ls)"
proof -
  from tr obtain decl rest where ls: "ls = decl # rest" and ne: "rest \<noteq> []"
    and fm: "funcMatch decl \<noteq> None"
    and so: "staysOpen (braceDelta decl) (butlast rest)"
    and fin: "depthAfter (braceDelta decl) rest \<le> 0"
    by (cases ls) (simp_all add: trackedFunction_def)
  from ne obtain body closing where rest: "rest = body @ [closing]"
    by (cases rest rule: rev_cases) simp_all
  let ?s1 = "s\<lparr>currentFunction := reportedName decl, functionStartLine := i,
                inFunction := True, braceDepth := braceDelta decl\<rparr>"
  let ?s2 = "?s1\<lparr>braceDepth := depthAfter (braceDelta decl) body\<rparr>"
  have s1: "lfStep i decl s = ?s1" using idle fm by (rule step_decl)
  have s2: "lfScan (Suc i) body ?s1 = ?s2"
    using scan_inside [of ?s1 body "Suc i"] so rest by simp
  let ?j = "Suc i + length body"
  have scan: "lfScan i ls s = lfStep ?j closing ?s2"
    by (simp add: ls rest lfScan_append s1 s2)
  have cl: "braceDepth ?s2 + braceDelta closing \<le> 0"
    using fin by (simp add: rest depthAfter_append)
  have inf: "inFunction ?s2" by simp
  have lt: "functionStartLine ?s2 < ?j" by simp
  have sel: "functionStartLine ?s2 = i" "currentFunction ?s2 = reportedName decl"
    "longFunctions ?s2 = longFunctions s" by simp_all
  have span: "?j - i = length ls - 1" by (simp add: ls rest)
  have hd: "hd ls = decl" by (simp add: ls)
  from step_close [OF inf cl lt]
  have "inFunction (lfStep ?j closing ?s2) = False"
    and "longFunctions (lfStep ?j closing ?s2) =
       longFunctions s @
       (if length ls - 1 > 80
        then [reportedName decl @ '' ('' @ showNat (length ls - 1) @ '' lines)'']
        else [])"
    unfolding sel span by simp_all
  then show ?thesis unfolding scan by (simp add: hd)
qed

lemma scan_segments:
  "\<not> inFunction s \<Longrightarrow> list_all trackedSegment segs \<Longrightarrow>
   inFunction (lfScan i (concat (map segLines segs)) s) = False \<and>
   longFunctions (lfScan i (concat (map segLines segs)) s) =
     longFunctions s @ concat (map expectedReport segs)"
proof (induction segs arbitrary: i s)
  case Nil
  then show ?case by simp
next
  case (Cons g segs)
  let ?s = "lfScan i (segLines g) s"
  have head: "inFunction ?s = False \<and> longFunctions ?s = longFunctions s @ expectedReport g"
  proof (cases g)
    case (Other l)
    with Cons.prems show ?thesis by (simp add: step_other)
  next
    case (Func ls)
    with Cons.prems scan_function [of s ls i] show ?thesis by simp
  qed
  from Cons.prems have "list_all trackedSegment segs" by simp
  with head Cons.IH [of ?s "i + length (segLines g)"]
  show ?case by (simp add: lfScan_append)
qed

lemma tracked_noLineFeed:
  "list_all trackedSegment segs \<Longrightarrow> list_all noLineFeed (concat (map segLines segs))"
proof (induction segs)
  case Nil
  show ?case by simp
next
  case (Cons g segs)
  then show ?case by (cases g) (auto simp add: trackedFunction_def split: list.splits)
qed

text \<open>
  C5 (as amended): for a source text made of lines that match no function-introduction
  expression and of top-level functions that the detector can follow (the first line matches
  the expression, the brace depth counted from it is positive after every later line but
  the last and at most 0 after the last, which is not the first), the detector reports
  exactly the functions whose span (index of the last line minus index of the first)
  exceeds 80, in the order of the text, each as its name and its span.
\<close>

theorem detectLongFunctions_tracked:
  assumes "list_all trackedSegment segs"
  shows "detectLongFunctions (sourceText segs) = concat (map expectedReport segs)"
proof (cases "concat (map segLines segs) = []")
  case True
  then have "sourceText segs = []" by (simp only: sourceText_def join_nl.simps)
  moreover have "funcMatch [] = None" by code_simp
  ultimately have "detectLongFunctions (sourceText segs) = []"
    by (simp add: detectLongFunctions_def lfInit_def step_other)
  moreover have "concat (map expectedReport segs) = []"
  proof -
    have "\<not> inFunction lfInit" by (simp add: lfInit_def)
    from scan_segments [OF this assms, of 0]
    have "longFunctions (lfScan 0 (concat (map segLines segs)) lfInit) =
          longFunctions lfInit @ concat (map expectedReport segs)" by simp
    then show ?thesis unfolding True by (simp add: lfInit_def)
  qed
  ultimately show ?thesis by simp
next
  case False
  with assms have "split_nl (sourceText segs) = concat (map segLines segs)"
    unfolding sourceText_def by (intro split_join tracked_noLineFeed)
  moreover have "\<not> inFunction lfInit" by (simp add: lfInit_def)
  from scan_segments [OF this assms, of 0]
  have "longFunctions (lfScan 0 (concat (map segLines segs)) lfInit) =
        longFunctions lfInit @ concat (map expectedReport segs)" by simp
  ultimately show ?thesis
    by (simp add: detectLongFunctions_def lfInit_def)
qed

text \<open>
  The theorem at a text with a comment, a function of span 82, an empty line and a function
  of span 2.
\<close>

theorem detectLongFunctions_tracked_witness:
  "list_all trackedSegment
     [Other ''// helpers'',
      Func (''export function render(props) {'' # replicate 81 ''  draw();'' @ [''}'']),
      Other [],
      Func [''const add = (a, b) => {'', ''  return a + b;'', ''};'']] \<and>
   detectLongFunctions (sourceText
     [Other ''// helpers'',
      Func (''export function render(props) {'' # replicate 81 ''  draw();'' @ [''}'']),
      Other [],
      Func [''const add = (a, b) => {'', ''  return a + b;'', ''};'']]) =
   [''render (82 lines)'']"
proof -
  let ?segs = "[Other ''// helpers'',
      Func (''export function render(props) {'' # replicate 81 ''  draw();'' @ [''}'']),
      Other [],
      Func [''const add = (a, b) => {'', ''  return a + b;'', ''};'']]"
  have h: "list_all trackedSegment ?segs" by code_simp
  have e: "concat (map expectedReport ?segs) = [''render (82 lines)'']" by code_simp
  from detectLongFunctions_tracked [OF h]
  have "detectLongFunctions (sourceText ?segs) = [''render (82 lines)'']" unfolding e .
  with h show ?thesis by (rule conjI)
qed

text \<open>
  Balanced braces are not enough. A function written on one line is still open for the
  detector on the next line, where the declaration of \<open>g\<close> is ignored; the end of \<open>g\<close> then
  closes \<open>f\<close>. The detector reports \<open>f\<close>, of span 0, with 101 lines and does not report \<open>g\<close>, of
  span 100.
\<close>

theorem detectLongFunctions_misreports:
  "balancedFunction [''function f() { return 1; }''] \<and>
   balancedFunction (''function g() {'' # replicate 99 ''  work();'' @ [''}'']) \<and>
   detectLongFunctions (sourceText
     [Func [''function f() { return 1; }''],
      Func (''function g() {'' # replicate 99 ''  work();'' @ [''}''])]) = [''f (101 lines)''] \<and>
   concat (map expectedReport
     [Func [''function f() { return 1; }''],
      Func (''function g() {'' # replicate 99 ''  work();'' @ [''}''])]) = [''g (100 lines)'']"
  by code_simp

end
